theory Spec2Isabelle
  imports Complex_Main "HOL-Library.Word"
begin

unbundle bit_operations_syntax

section \<open>Number model\<close>

text \<open>
  The engine computes on JavaScript numbers.  Integer-valued bit arithmetic (the generator
  state, \<open>Math.imul\<close>, \<open>^\<close>, \<open><<\<close>, \<open>>>>\<close>) is modelled exactly on 32-bit words.  Every other
  number is modelled as a real: rounding, infinities and NaN are not represented, so the
  results below are statements about the formulas the code evaluates.  Where the code reads a
  typed array out of range (which yields \<open>undefined\<close>, hence NaN), the model reads
  \<open>xs ! i\<close>; theorems that depend on such a read carry the length hypothesis that rules it
  out.  A write to a typed array out of range is ignored, which is what \<open>xs[i := v]\<close> does.
\<close>

type_synonym u32 = "32 word"

section \<open>Random source: class PRNG (sim/potentials.ts)\<close>

text \<open>The field \<open>s\<close> is a \<open>Uint32Array(4)\<close>; its four slots are the four fields.\<close>

record PRNG =
  s0 :: u32
  s1 :: u32
  s2 :: u32
  s3 :: u32

text \<open>
  One round of the constructor's loop body after \<open>seed += 0x9e3779b9\<close>.  The seed is a
  number that is never wrapped itself; \<open>^\<close> and \<open>>>>\<close> read it modulo \<open>2^32\<close>.
\<close>

definition splitmix :: "int \<Rightarrow> u32" where
  "splitmix seed =
     (let t = word_of_int seed XOR drop_bit 16 (word_of_int seed);
          t = t * 0x21f0aaad;
          t = t XOR drop_bit 15 t;
          t = t * 0x735a2d97;
          t = t XOR drop_bit 15 t
      in t)"

text \<open>
  The constructor: the loop \<open>for (let i = 0; i < 4; i++)\<close>, one line per iteration.
  The seed is an integer here and the four additions are exact.  The code adds doubles,
  which agrees as long as the sums stay below \<open>2^53\<close> in magnitude, and so for every
  32-bit seed; beyond that the code rounds and the definition does not follow it.
\<close>

definition PRNG_new :: "int \<Rightarrow> PRNG" where
  "PRNG_new seed =
     (let seed1 = seed + 0x9e3779b9;
          seed2 = seed1 + 0x9e3779b9;
          seed3 = seed2 + 0x9e3779b9;
          seed4 = seed3 + 0x9e3779b9
      in \<lparr>s0 = splitmix seed1, s1 = splitmix seed2,
          s2 = splitmix seed3, s3 = splitmix seed4\<rparr>)"

text \<open>\<open>next()\<close>: the returned uniform value and the generator after the call.\<close>

definition PRNG_next_result :: "PRNG \<Rightarrow> u32" where
  "PRNG_next_result g = s1 g * 5 * 7"

definition PRNG_next_state :: "PRNG \<Rightarrow> PRNG" where
  "PRNG_next_state g =
     (let t = push_bit 9 (s1 g);
          g = g\<lparr>s2 := s2 g XOR s0 g\<rparr>;
          g = g\<lparr>s3 := s3 g XOR s1 g\<rparr>;
          g = g\<lparr>s1 := s1 g XOR s2 g\<rparr>;
          g = g\<lparr>s0 := s0 g XOR s3 g\<rparr>;
          g = g\<lparr>s2 := s2 g XOR t\<rparr>;
          g = g\<lparr>s3 := push_bit 11 (s3 g) OR drop_bit 21 (s3 g)\<rparr>
      in g)"

definition PRNG_next :: "PRNG \<Rightarrow> real \<times> PRNG" where
  "PRNG_next g = (real (unat (PRNG_next_result g)) / 4294967296, PRNG_next_state g)"

definition PRNG_random :: "PRNG \<Rightarrow> real \<times> PRNG" where
  "PRNG_random g = PRNG_next g"

text \<open>The Box-Muller expression of \<open>randn()\<close> on the two uniform draws.\<close>

definition box_muller :: "real \<Rightarrow> real \<Rightarrow> real" where
  "box_muller u1 u2 = sqrt (- 2 * ln (u1 + 1 / 10 ^ 30)) * cos (2 * pi * u2)"

definition PRNG_randn :: "PRNG \<Rightarrow> real \<times> PRNG" where
  "PRNG_randn g =
     (let (u1, g) = PRNG_next g;
          (u2, g) = PRNG_next g
      in (box_muller u1 u2, g))"

text \<open>
  \<open>randnArray(arr)\<close>: every slot of \<open>arr\<close> is overwritten, in index order, by one
  \<open>randn()\<close> draw; only the length of \<open>arr\<close> matters.
\<close>

fun randn_fill :: "nat \<Rightarrow> PRNG \<Rightarrow> real list \<times> PRNG" where
  "randn_fill 0 g = ([], g)"
| "randn_fill (Suc n) g =
     (let (x, g) = PRNG_randn g;
          (xs, g) = randn_fill n g
      in (x # xs, g))"

definition PRNG_randnArray :: "real list \<Rightarrow> PRNG \<Rightarrow> real list \<times> PRNG" where
  "PRNG_randnArray arr g = randn_fill (length arr) g"

text \<open>The state the generator must never reach.\<close>

definition all_zero :: "PRNG \<Rightarrow> bool" where
  "all_zero g = (s0 g = 0 \<and> s1 g = 0 \<and> s2 g = 0 \<and> s3 g = 0)"

text \<open>
  \<open>randn()\<close> once more, with the results that are not finite numbers made explicit:
  \<open>Math.log\<close> is finite exactly on positive arguments (\<open>-Infinity\<close> at 0, NaN below)
  and \<open>Math.sqrt\<close> is NaN exactly on negative ones; \<open>None\<close> stands for both.
\<close>

definition Math_log :: "real \<Rightarrow> real option" where
  "Math_log x = (if 0 < x then Some (ln x) else None)"

definition Math_sqrt :: "real \<Rightarrow> real option" where
  "Math_sqrt x = (if 0 \<le> x then Some (sqrt x) else None)"

definition randn_finite :: "PRNG \<Rightarrow> real option" where
  "randn_finite g =
     (let (u1, g) = PRNG_next g;
          (u2, g) = PRNG_next g
      in case Math_log (u1 + 1 / 10 ^ 30) of
           None \<Rightarrow> None
         | Some l \<Rightarrow>
             (case Math_sqrt (- 2 * l) of
                None \<Rightarrow> None
              | Some q \<Rightarrow> Some (q * cos (2 * pi * u2))))"

section \<open>Force-law library (sim/potentials.ts)\<close>

text \<open>
  The loops of the library, as folds over the index range.  \<open>sum_sq\<close> is
  \<open>for (i < x.length) s += x[i] * x[i]\<close>; \<open>write_loop n f out\<close> is
  \<open>for (i < n) out[i] = f i\<close>.
\<close>

definition sum_sq :: "real list \<Rightarrow> real" where
  "sum_sq x = fold (\<lambda>i s. s + x ! i * x ! i) [0..<length x] 0"

definition write_loop :: "nat \<Rightarrow> (nat \<Rightarrow> real) \<Rightarrow> real list \<Rightarrow> real list" where
  "write_loop n f out = fold (\<lambda>i out. out[i := f i]) [0..<n] out"

subsection \<open>Confinement potentials\<close>

datatype ConfinementPotential =
    HarmonicPotential real
  | QuadraticConfinement real real
  | DoubleWellPotential
  | AnisotropicConfinement "real list"

fun V_evaluate :: "ConfinementPotential \<Rightarrow> real list \<Rightarrow> real" where
  "V_evaluate (HarmonicPotential k) x = 0.5 * k * sum_sq x"
| "V_evaluate (QuadraticConfinement alpha1 alpha2) x =
     (let rSq = sum_sq x;
          r = sqrt rSq
      in 0.5 * alpha1 * r + alpha2 * rSq)"
| "V_evaluate DoubleWellPotential x =
     (let rSq = sum_sq x
      in 0.25 * (rSq - 1) ^ 2)"
| "V_evaluate (AnisotropicConfinement a) x =
     fold (\<lambda>i s. s + a ! i * x ! i * x ! i) [0..<length x] 0"

fun V_gradient :: "ConfinementPotential \<Rightarrow> real list \<Rightarrow> real list \<Rightarrow> real list" where
  "V_gradient (HarmonicPotential k) x out = write_loop (length x) (\<lambda>i. k * x ! i) out"
| "V_gradient (QuadraticConfinement alpha1 alpha2) x out =
     (let rSq = sum_sq x;
          r = max (sqrt rSq) (1 / 10 ^ 10);
          c1 = 0.5 * alpha1 / r;
          c2 = 2 * alpha2
      in write_loop (length x) (\<lambda>i. c1 * x ! i + c2 * x ! i) out)"
| "V_gradient DoubleWellPotential x out =
     (let rSq = sum_sq x;
          c = rSq - 1
      in write_loop (length x) (\<lambda>i. c * x ! i) out)"
| "V_gradient (AnisotropicConfinement a) x out =
     write_loop (length x) (\<lambda>i. 2 * a ! i * x ! i) out"

subsection \<open>Radial interaction potentials\<close>

text \<open>
  The constructor arguments of each class are its stored fields.  A Lennard-Jones object
  stores \<open>epsilon\<close>, \<open>sigmaLJ\<close>, \<open>rCut\<close> and the two values its constructor derives,
  \<open>rSafe\<close> and \<open>shift\<close>.
\<close>

datatype RadialInteraction =
    GaussianInteraction real real
  | PiecewiseInteraction real real real
  | InverseInteraction real
  | MorsePotential real real real
  | LennardJonesPotential real real real real real

definition LennardJonesPotential_new :: "real \<Rightarrow> real \<Rightarrow> real \<Rightarrow> real \<Rightarrow> RadialInteraction" where
  "LennardJonesPotential_new epsilon sigmaLJ rCut rSafeFactor =
     (let rSafe = rSafeFactor * sigmaLJ;
          sr6Cut = (sigmaLJ / rCut) ^ 6;
          shift = 4 * epsilon * (sr6Cut ^ 2 - sr6Cut)
      in LennardJonesPotential epsilon sigmaLJ rCut rSafe shift)"

definition smoothInd :: "real \<Rightarrow> real \<Rightarrow> real \<Rightarrow> real \<Rightarrow> real" where
  "smoothInd eps r lo hi = 0.5 * (tanh ((r - lo) / eps) - tanh ((r - hi) / eps))"

definition smoothIndGrad :: "real \<Rightarrow> real \<Rightarrow> real \<Rightarrow> real \<Rightarrow> real" where
  "smoothIndGrad eps r lo hi =
     (let sech2Lo = 1 / cosh ((r - lo) / eps) ^ 2;
          sech2Hi = 1 / cosh ((r - hi) / eps) ^ 2
      in 0.5 / eps * (sech2Lo - sech2Hi))"

fun radial_evaluate :: "RadialInteraction \<Rightarrow> real \<Rightarrow> real" where
  "radial_evaluate (GaussianInteraction A sigma) r = A * exp (- r * r / (2 * sigma * sigma))"
| "radial_evaluate (PiecewiseInteraction beta1 beta2 eps) r =
     beta1 * smoothInd eps r 0.5 1 + beta2 * smoothInd eps r 1 2"
| "radial_evaluate (InverseInteraction gamma) r = gamma / (r + 1)"
| "radial_evaluate (MorsePotential D a r0) r =
     (let e = exp (- a * (r - r0))
      in D * (1 - e) ^ 2)"
| "radial_evaluate (LennardJonesPotential epsilon sigmaLJ rCut rSafe shift) r =
     (if r \<ge> rCut then 0
      else let rc = max r rSafe;
               sr6 = (sigmaLJ / rc) ^ 6
           in 4 * epsilon * (sr6 * sr6 - sr6) - shift)"

fun radial_gradient :: "RadialInteraction \<Rightarrow> real \<Rightarrow> real" where
  "radial_gradient (GaussianInteraction A sigma) r =
     (let s2 = sigma * sigma
      in - A * r / s2 * exp (- r * r / (2 * s2)))"
| "radial_gradient (PiecewiseInteraction beta1 beta2 eps) r =
     beta1 * smoothIndGrad eps r 0.5 1 + beta2 * smoothIndGrad eps r 1 2"
| "radial_gradient (InverseInteraction gamma) r = - gamma / ((r + 1) * (r + 1))"
| "radial_gradient (MorsePotential D a r0) r =
     (let e = exp (- a * (r - r0))
      in 2 * D * a * (1 - e) * e)"
| "radial_gradient (LennardJonesPotential epsilon sigmaLJ rCut rSafe shift) r =
     (if r \<ge> rCut then 0
      else let rc = max r rSafe;
               sr6 = (sigmaLJ / rc) ^ 6
           in (4 * epsilon / rc) * (- 12 * sr6 * sr6 + 6 * sr6))"

subsection \<open>Non-radial interaction potentials\<close>

text \<open>The stored fields are \<open>A\<close>, \<open>s\<close> and \<open>sSq\<close>, which the constructor derives from \<open>s\<close>.\<close>

datatype VectorInteraction =
    AnisotropicGaussianInteraction real "real list" "real list"

definition AnisotropicGaussianInteraction_new :: "real \<Rightarrow> real list \<Rightarrow> VectorInteraction" where
  "AnisotropicGaussianInteraction_new A s =
     AnisotropicGaussianInteraction A s (map (\<lambda>si. si * si) s)"

fun vector_evaluate :: "VectorInteraction \<Rightarrow> real list \<Rightarrow> real" where
  "vector_evaluate (AnisotropicGaussianInteraction A s sSq) z =
     (let exponent = fold (\<lambda>i e. e + (z ! i * z ! i) / sSq ! i) [0..<length z] 0
      in A * exp (- 0.5 * exponent))"

fun vector_gradient :: "VectorInteraction \<Rightarrow> real list \<Rightarrow> real list \<Rightarrow> real list" where
  "vector_gradient (AnisotropicGaussianInteraction A s sSq) z out =
     (let phi = vector_evaluate (AnisotropicGaussianInteraction A s sSq) z
      in write_loop (length z) (\<lambda>i. - phi * z ! i / sSq ! i) out)"

text \<open>The union type, with the \<open>radial\<close> flag as the constructor.\<close>

datatype InteractionPotential =
    Radial RadialInteraction
  | Vector VectorInteraction

section \<open>Particle-system integrator (sim/euler-maruyama.ts)\<close>

datatype error = RangeError

record ParticleState =
  positions :: "real list"
  N :: int
  d :: int

text \<open>
  The integrator object: its public parameters, its five scratch buffers and its
  generator.  \<open>N\<close> and \<open>d\<close> are numbers in the source; they are integers here.
\<close>

record ParticleSystem =
  V :: ConfinementPotential
  Phi :: InteractionPotential
  sigma :: real
  dt :: real
  N :: int
  d :: int
  gradV :: "real list"
  gradPhi :: "real list"
  diff :: "real list"
  noise :: "real list"
  gradOut :: "real list"
  prng :: PRNG

text \<open>
  \<open>new Float64Array(n)\<close>: a zero-filled buffer of \<open>n\<close> slots.  It throws a
  \<open>RangeError\<close> for a negative length and for a length beyond what the engine
  allocates.  That bound belongs to the engine, not to the repository, and is the
  parameter \<open>limit\<close>.
\<close>

definition Float64Array_new :: "int \<Rightarrow> int \<Rightarrow> error + real list" where
  "Float64Array_new limit n =
     (if n < 0 \<or> limit < n then Inl RangeError else Inr (replicate (nat n) 0))"

text \<open>
  The constructor.  It seeds the generator and allocates the five buffers, of sizes
  \<open>d\<close>, \<open>d\<close>, \<open>d\<close>, \<open>N * d\<close> and \<open>d\<close>, in that order; a failing allocation is its only
  failure.  No parameter is inspected otherwise.  The defaults of the source
  (\<open>seed = 42\<close> here, \<open>std = 1.0\<close> and \<open>initStd = 1.0\<close> below) are arguments the caller
  passes.
\<close>

definition ParticleSystem_new ::
  "int \<Rightarrow> ConfinementPotential \<Rightarrow> InteractionPotential \<Rightarrow> real \<Rightarrow> real \<Rightarrow> int \<Rightarrow> int \<Rightarrow> int
     \<Rightarrow> error + ParticleSystem" where
  "ParticleSystem_new limit V' Phi' sigma' dt' N' d' seed =
     (let prng' = PRNG_new seed
      in case Float64Array_new limit d' of
           Inl e \<Rightarrow> Inl e
         | Inr gradV' \<Rightarrow>
      (case Float64Array_new limit d' of
           Inl e \<Rightarrow> Inl e
         | Inr gradPhi' \<Rightarrow>
      (case Float64Array_new limit d' of
           Inl e \<Rightarrow> Inl e
         | Inr diff' \<Rightarrow>
      (case Float64Array_new limit (N' * d') of
           Inl e \<Rightarrow> Inl e
         | Inr noise' \<Rightarrow>
      (case Float64Array_new limit d' of
           Inl e \<Rightarrow> Inl e
         | Inr gradOut' \<Rightarrow>
             Inr \<lparr>V = V', Phi = Phi', sigma = sigma', dt = dt', N = N', d = d',
                   gradV = gradV', gradPhi = gradPhi', diff = diff', noise = noise',
                   gradOut = gradOut', prng = prng'\<rparr>)))))"

text \<open>
  \<open>initialize(std)\<close>: a fresh buffer of \<open>N * d\<close> slots, then the loop
  \<open>pos[i] = std * this.prng.randn()\<close> over its length.
\<close>

fun initialize_fill :: "nat \<Rightarrow> real \<Rightarrow> PRNG \<Rightarrow> real list \<times> PRNG" where
  "initialize_fill 0 std g = ([], g)"
| "initialize_fill (Suc n) std g =
     (let (x, g) = PRNG_randn g;
          (xs, g) = initialize_fill n std g
      in (std * x # xs, g))"

definition initialize ::
  "int \<Rightarrow> ParticleSystem \<Rightarrow> real \<Rightarrow> error + ParticleSystem \<times> ParticleState" where
  "initialize limit sys std =
     (case Float64Array_new limit (ParticleSystem.N sys * ParticleSystem.d sys) of
        Inl e \<Rightarrow> Inl e
      | Inr pos \<Rightarrow>
          let (pos, g) = initialize_fill (length pos) std (prng sys)
          in Inr (sys\<lparr>prng := g\<rparr>,
                  \<lparr>positions = pos, N = ParticleSystem.N sys, d = ParticleSystem.d sys\<rparr>))"

text \<open>
  \<open>getParticle(state, i)\<close> is \<open>state.positions.subarray(i * d, (i + 1) * d)\<close>, a view
  clamped to the buffer.  The function gives the contents of the view; a write through
  the view is a write to \<open>positions\<close> at \<open>i * d + k\<close> (see \<open>step_particle\<close>).
\<close>

definition getParticle :: "ParticleSystem \<Rightarrow> ParticleState \<Rightarrow> nat \<Rightarrow> real list" where
  "getParticle sys state i =
     take (nat (ParticleSystem.d sys)) (drop (i * nat (ParticleSystem.d sys)) (positions state))"

text \<open>
  The displacement loops of the two branches:
  \<open>for (k < d) { diff[k] = xi[k] - xj[k]; rSq += diff[k] * diff[k]; }\<close> and
  \<open>for (k < d) diff[k] = xi[k] - xj[k]\<close>.
\<close>

definition diff_rSq_loop :: "nat \<Rightarrow> real list \<Rightarrow> real list \<Rightarrow> real list \<Rightarrow> real list \<times> real" where
  "diff_rSq_loop n xi xj df =
     fold (\<lambda>k (df, rSq). let df = df[k := xi ! k - xj ! k] in (df, rSq + df ! k * df ! k))
       [0..<n] (df, 0)"

definition diff_loop :: "nat \<Rightarrow> real list \<Rightarrow> real list \<Rightarrow> real list \<Rightarrow> real list" where
  "diff_loop n xi xj df = fold (\<lambda>k df. df[k := xi ! k - xj ! k]) [0..<n] df"

text \<open>The body of the loop over \<open>j\<close> in the radial branch, for particle \<open>i\<close>.\<close>

definition radial_pair ::
  "RadialInteraction \<Rightarrow> ParticleState \<Rightarrow> nat \<Rightarrow> nat \<Rightarrow> ParticleSystem \<Rightarrow> ParticleSystem" where
  "radial_pair phi state i j sys =
     (if i = j then sys
      else let xi = getParticle sys state i;
               xj = getParticle sys state j;
               (df, rSq) = diff_rSq_loop (nat (ParticleSystem.d sys)) xi xj (diff sys);
               sys = sys\<lparr>diff := df\<rparr>;
               r = max (sqrt rSq) (1 / 10 ^ 10);
               dPhiDr = radial_gradient phi r
           in sys\<lparr>gradPhi :=
                    fold (\<lambda>k g. g[k := g ! k + dPhiDr * diff sys ! k / r])
                      [0..<nat (ParticleSystem.d sys)] (gradPhi sys)\<rparr>)"

text \<open>The body of the loop over \<open>j\<close> in the non-radial branch.\<close>

definition vector_pair ::
  "VectorInteraction \<Rightarrow> ParticleState \<Rightarrow> nat \<Rightarrow> nat \<Rightarrow> ParticleSystem \<Rightarrow> ParticleSystem" where
  "vector_pair phi state i j sys =
     (if i = j then sys
      else let xi = getParticle sys state i;
               xj = getParticle sys state j;
               sys = sys\<lparr>diff := diff_loop (nat (ParticleSystem.d sys)) xi xj (diff sys)\<rparr>;
               sys = sys\<lparr>gradOut := vector_gradient phi (diff sys) (gradOut sys)\<rparr>
           in sys\<lparr>gradPhi :=
                    fold (\<lambda>k g. g[k := g ! k + gradOut sys ! k])
                      [0..<nat (ParticleSystem.d sys)] (gradPhi sys)\<rparr>)"

text \<open>
  The body of the loop over \<open>i\<close> in \<open>step\<close>.  \<open>xi\<close> is a view of \<open>state.positions\<close>:
  the final loop reads and writes \<open>positions\<close> at \<open>base + k\<close>, in place, and the views
  \<open>xj\<close> of later iterations read what it wrote.  A write through the view at an index
  beyond the view is ignored; such an index is beyond \<open>positions\<close> as well.
\<close>

definition step_particle ::
  "real \<Rightarrow> nat \<Rightarrow> ParticleSystem \<times> ParticleState \<Rightarrow> ParticleSystem \<times> ParticleState" where
  "step_particle sqrtDt i = (\<lambda>(sys, state).
     let xi = getParticle sys state i;
         sys = sys\<lparr>gradV := V_gradient (V sys) xi (gradV sys)\<rparr>;
         sys = sys\<lparr>gradPhi := fold (\<lambda>k g. g[k := 0]) [0..<nat (ParticleSystem.d sys)] (gradPhi sys)\<rparr>;
         sys = (case Phi sys of
                  Radial phi \<Rightarrow> fold (radial_pair phi state i) [0..<nat (ParticleSystem.N sys)] sys
                | Vector phi \<Rightarrow> fold (vector_pair phi state i) [0..<nat (ParticleSystem.N sys)] sys);
         sys = sys\<lparr>gradPhi :=
                  fold (\<lambda>k g. g[k := g ! k / real_of_int (ParticleSystem.N sys)])
                    [0..<nat (ParticleSystem.d sys)] (gradPhi sys)\<rparr>;
         base = i * nat (ParticleSystem.d sys)
     in (sys,
         state\<lparr>positions :=
           fold (\<lambda>k pos. pos[base + k := pos ! (base + k)
                    + ((- gradV sys ! k - gradPhi sys ! k) * dt sys
                       + sigma sys * sqrtDt * noise sys ! (base + k))])
             [0..<nat (ParticleSystem.d sys)] (positions state)\<rparr>))"

text \<open>\<open>step(state)\<close>: the integrator and the state after the call.\<close>

definition step :: "ParticleSystem \<Rightarrow> ParticleState \<Rightarrow> ParticleSystem \<times> ParticleState" where
  "step sys state =
     (let sqrtDt = sqrt (dt sys);
          (nz, g) = PRNG_randnArray (noise sys) (prng sys);
          sys = sys\<lparr>noise := nz, prng := g\<rparr>
      in fold (step_particle sqrtDt) [0..<nat (ParticleSystem.N sys)] (sys, state))"

text \<open>
  \<open>simulate(nSteps, initStd)\<close>: the loop over \<open>s\<close>, with the trajectory of copied
  position buffers grown at the end.
  A copy has the length of the buffer it copies, which was allocated
  within the limit.
\<close>

fun simulate_loop ::
  "nat \<Rightarrow> nat \<Rightarrow> nat \<Rightarrow> ParticleSystem \<times> ParticleState \<Rightarrow> ParticleState list
     \<Rightarrow> ParticleSystem \<times> ParticleState list" where
  "simulate_loop 0 s nSteps (sys, state) trajectory = (sys, trajectory)"
| "simulate_loop (Suc fuel) s nSteps (sys, state) trajectory =
     (let (sys, state) = step sys state;
          trajectory =
            (if s mod 10 = 0 \<or> int s = int nSteps - 1
             then trajectory @ [\<lparr>positions = positions state,
                                  N = ParticleSystem.N sys, d = ParticleSystem.d sys\<rparr>]
             else trajectory)
      in simulate_loop fuel (Suc s) nSteps (sys, state) trajectory)"

definition simulate ::
  "int \<Rightarrow> ParticleSystem \<Rightarrow> nat \<Rightarrow> real \<Rightarrow> error + ParticleSystem \<times> ParticleState list" where
  "simulate limit sys nSteps initStd =
     (case initialize limit sys initStd of
        Inl e \<Rightarrow> Inl e
      | Inr (sys, state) \<Rightarrow>
          Inr (simulate_loop nSteps 0 nSteps (sys, state)
                 [\<lparr>positions = positions state,
                   N = ParticleSystem.N sys, d = ParticleSystem.d sys\<rparr>]))"

section \<open>Well-formed integrators and states\<close>

text \<open>
  What one particle iteration leaves untouched: the parameters, the noise buffer and
  the generator.
\<close>

definition frame ::
  "ParticleSystem \<Rightarrow>
     ConfinementPotential \<times> InteractionPotential \<times> real \<times> real \<times> int \<times> int \<times> real list \<times> PRNG" where
  "frame sys =
     (V sys, Phi sys, sigma sys, dt sys, ParticleSystem.N sys, ParticleSystem.d sys,
      noise sys, prng sys)"

text \<open>
  The buffer sizes the constructor allocates, and the size of a state that
  \<open>initialize\<close> returns.  Within them no loop of \<open>step\<close> reads out of range.
\<close>

definition noise_allocated :: "ParticleSystem \<Rightarrow> bool" where
  "noise_allocated sys =
     (length (noise sys) = nat (ParticleSystem.N sys * ParticleSystem.d sys))"

definition scratch_allocated :: "ParticleSystem \<Rightarrow> bool" where
  "scratch_allocated sys =
     (length (gradV sys) = nat (ParticleSystem.d sys)
      \<and> length (gradPhi sys) = nat (ParticleSystem.d sys)
      \<and> length (diff sys) = nat (ParticleSystem.d sys)
      \<and> length (gradOut sys) = nat (ParticleSystem.d sys))"

definition state_fits :: "ParticleSystem \<Rightarrow> ParticleState \<Rightarrow> bool" where
  "state_fits sys state =
     (length (positions state) = nat (ParticleSystem.N sys) * nat (ParticleSystem.d sys))"

text \<open>
  The clamped distance of the radial branch,
  \<open>r = Math.max(Math.sqrt(rSq), 1e-10)\<close>, with \<open>rSq\<close> as the displacement loop
  accumulates it.
\<close>

definition pair_distance :: "nat \<Rightarrow> real list \<Rightarrow> real list \<Rightarrow> real" where
  "pair_distance n xi xj =
     max (sqrt (\<Sum>k<n. (xi ! k - xj ! k) * (xi ! k - xj ! k))) (1 / 10 ^ 10)"

section \<open>Where a gradient is a derivative\<close>

text \<open>
  The inputs at which a radial potential is evaluated without division by zero and
  outside its clamps: a Lennard-Jones potential beyond the cutoff, or strictly between
  the clamp radius \<open>rSafe\<close> and the cutoff \<open>rCut\<close>.
\<close>

fun radial_regular :: "RadialInteraction \<Rightarrow> real \<Rightarrow> bool" where
  "radial_regular (GaussianInteraction A sg) r = (sg \<noteq> 0)"
| "radial_regular (PiecewiseInteraction beta1 beta2 eps) r = (eps \<noteq> 0)"
| "radial_regular (InverseInteraction gamma) r = (r + 1 \<noteq> 0)"
| "radial_regular (MorsePotential D a r0) r = True"
| "radial_regular (LennardJonesPotential epsilon sigmaLJ rCut rSafe shift) r =
     (rCut < r \<or> (rSafe < r \<and> r < rCut \<and> r \<noteq> 0))"

text \<open>
  The shifted Lennard-Jones formula in closed form, as a function of the distance alone:
  \<open>4 * epsilon * ((sigmaLJ / r)^12 - (sigmaLJ / r)^6) - shift\<close>, with the shift the
  constructor computes from \<open>rCut\<close>.  It is what \<open>evaluate\<close> is compared with.
\<close>

definition lj_shifted :: "real \<Rightarrow> real \<Rightarrow> real \<Rightarrow> real \<Rightarrow> real" where
  "lj_shifted epsilon sigmaLJ rCut r =
     4 * epsilon * ((sigmaLJ / r) ^ 12 - (sigmaLJ / r) ^ 6)
       - 4 * epsilon * ((sigmaLJ / rCut) ^ 12 - (sigmaLJ / rCut) ^ 6)"

text \<open>
  The same for the potentials of a vector argument: the norm of a quadratic confinement
  is at or above its floor \<open>1e-10\<close>, and the per-axis parameter arrays cover the
  argument, with no zero length scale.
\<close>

fun V_regular :: "ConfinementPotential \<Rightarrow> real list \<Rightarrow> bool" where
  "V_regular (HarmonicPotential k) x = True"
| "V_regular (QuadraticConfinement alpha1 alpha2) x = (1 / 10 ^ 10 \<le> sqrt (sum_sq x))"
| "V_regular DoubleWellPotential x = True"
| "V_regular (AnisotropicConfinement a) x = (length x \<le> length a)"

fun vector_regular :: "VectorInteraction \<Rightarrow> real list \<Rightarrow> bool" where
  "vector_regular (AnisotropicGaussianInteraction A s sSq) z =
     (length z \<le> length sSq \<and> list_all (\<lambda>q. q \<noteq> 0) (take (length z) sSq))"

section \<open>Call sequences and sample configurations\<close>

text \<open>
  A caller's session with one integrator: a sequence of \<open>initialize(std)\<close> and
  \<open>step(state)\<close> calls, where \<open>step\<close> is applied to the state the latest
  \<open>initialize\<close> returned (a \<open>step\<close> before the first \<open>initialize\<close> has no state to
  act on and is skipped).  The result is the list of position buffers observed after
  each call, or the error that ended the session.
\<close>

datatype call = Initialize real | Step

fun run_calls ::
  "int \<Rightarrow> call list \<Rightarrow> ParticleSystem \<Rightarrow> ParticleState option \<Rightarrow> error + real list list" where
  "run_calls limit [] sys cur = Inr []"
| "run_calls limit (Initialize std # cs) sys cur =
     (case initialize limit sys std of
        Inl e \<Rightarrow> Inl e
      | Inr (sys, state) \<Rightarrow>
          (case run_calls limit cs sys (Some state) of
             Inl e \<Rightarrow> Inl e
           | Inr rest \<Rightarrow> Inr (positions state # rest)))"
| "run_calls limit (Step # cs) sys None = run_calls limit cs sys None"
| "run_calls limit (Step # cs) sys (Some state) =
     (let (sys, state) = step sys state
      in case run_calls limit cs sys (Some state) of
           Inl e \<Rightarrow> Inl e
         | Inr rest \<Rightarrow> Inr (positions state # rest))"

text \<open>
  Two integrators as the constructor returns them, and a state for each: two particles
  on a line under a harmonic well and an inverse-distance interaction, without noise
  (\<open>sigma = 0\<close>); and one particle in the plane under the double well of the label demo.
\<close>

definition two_particle_system :: ParticleSystem where
  "two_particle_system =
     \<lparr>V = HarmonicPotential 1, Phi = Radial (InverseInteraction 4), sigma = 0, dt = 1,
      N = 2, d = 1, gradV = [0], gradPhi = [0], diff = [0], noise = [0, 0], gradOut = [0],
      prng = PRNG_new 42\<rparr>"

definition two_particle_state :: ParticleState where
  "two_particle_state = \<lparr>positions = [0, 1], N = 2, d = 1\<rparr>"

definition single_particle_system :: ParticleSystem where
  "single_particle_system =
     \<lparr>V = DoubleWellPotential, Phi = Radial (InverseInteraction 0.5), sigma = 0.15, dt = 0.02,
      N = 1, d = 2, gradV = [0, 0], gradPhi = [0, 0], diff = [0, 0], noise = [0, 0],
      gradOut = [0, 0], prng = PRNG_new 42\<rparr>"

definition single_particle_state :: ParticleState where
  "single_particle_state = \<lparr>positions = [1, 2], N = 1, d = 2\<rparr>"

section \<open>The generator never stalls\<close>

lemma xor_zero_eq:
  fixes a b :: u32
  assumes "a XOR b = 0"
  shows "a = b"
proof -
  have "a = (a XOR b) XOR b"
    by (simp add: xor.assoc)
  then show ?thesis
    using assms by simp
qed

lemma xorshift_right_zero:
  fixes x :: u32
  assumes "x XOR drop_bit k x = 0" and "0 < k"
  shows "x = 0"
proof -
  from assms(1) have eq: "x = drop_bit k x"
    by (rule xor_zero_eq)
  have "unat (drop_bit k x) = unat x div 2 ^ k"
    by (simp only: unat_drop_bit_eq drop_bit_nat_def)
  with eq have fx: "unat x = unat x div 2 ^ k"
    by simp
  have "(2::nat) \<le> 2 ^ k"
    using assms(2) by (cases k) simp_all
  then have "(1::nat) < 2 ^ k"
    by simp
  then have "0 < unat x \<Longrightarrow> unat x div 2 ^ k < unat x"
    by (rule div_less_dividend)
  with fx have "unat x = 0"
    by (cases "unat x = 0") simp_all
  then show ?thesis
    by (simp add: unat_eq_0)
qed

lemma odd_mult_zero:
  fixes x c c' :: u32
  assumes inv: "c * c' = 1" and z: "x * c = 0"
  shows "x = 0"
proof -
  have "x = x * (c * c')"
    using inv by simp
  also have "\<dots> = (x * c) * c'"
    by (simp only: mult.assoc)
  also have "\<dots> = 0"
    using z by simp
  finally show ?thesis .
qed

lemma mul_21f0aaad_zero:
  fixes x :: u32
  assumes "x * 0x21f0aaad = 0"
  shows "x = 0"
proof -
  have "(0x21f0aaad :: u32) * 859588901 = 1"
    by simp
  then show ?thesis
    using assms by (rule odd_mult_zero)
qed

lemma mul_735a2d97_zero:
  fixes x :: u32
  assumes "x * 0x735a2d97 = 0"
  shows "x = 0"
proof -
  have "(0x735a2d97 :: u32) * 2534613543 = 1"
    by simp
  then show ?thesis
    using assms by (rule odd_mult_zero)
qed

lemma splitmix_zero:
  assumes "splitmix seed = 0"
  shows "(word_of_int seed :: u32) = 0"
proof -
  define a :: u32 where "a = word_of_int seed XOR drop_bit 16 (word_of_int seed)"
  define b :: u32 where "b = a * 0x21f0aaad"
  define c :: u32 where "c = b XOR drop_bit 15 b"
  define e :: u32 where "e = c * 0x735a2d97"
  have "e XOR drop_bit 15 e = 0"
    using assms by (simp add: splitmix_def Let_def a_def b_def c_def e_def)
  then have "e = 0"
    by (rule xorshift_right_zero) simp
  then have "c = 0"
    unfolding e_def by (rule mul_735a2d97_zero)
  then have "b = 0"
    unfolding c_def by (rule xorshift_right_zero) simp
  then have "a = 0"
    unfolding b_def by (rule mul_21f0aaad_zero)
  then show ?thesis
    unfolding a_def by (rule xorshift_right_zero) simp
qed

lemma PRNG_new_not_all_zero: "\<not> all_zero (PRNG_new seed)"
proof
  assume "all_zero (PRNG_new seed)"
  then have "splitmix (seed + 0x9e3779b9) = 0"
    and "splitmix (seed + 0x9e3779b9 + 0x9e3779b9) = 0"
    by (simp_all only: all_zero_def PRNG_new_def Let_def PRNG.simps)
  then have z1: "(word_of_int (seed + 0x9e3779b9) :: u32) = 0"
    and z2: "(word_of_int (seed + 0x9e3779b9 + 0x9e3779b9) :: u32) = 0"
    by (simp_all only: splitmix_zero)
  have "(word_of_int (seed + 0x9e3779b9 + 0x9e3779b9) :: u32)
          = word_of_int (seed + 0x9e3779b9) + word_of_int 0x9e3779b9"
    by (simp only: wi_hom_add)
  with z1 z2 have "(word_of_int 0x9e3779b9 :: u32) = 0"
    by simp
  then show False
    by simp
qed

lemma shift_left_9_fixed:
  fixes x :: u32
  assumes "x XOR push_bit 9 x = 0"
  shows "x = 0"
proof -
  from assms have eq: "x = push_bit 9 x"
    by (rule xor_zero_eq)
  have "push_bit 9 x = x * 512"
    by (simp add: push_bit_eq_mult)
  with eq have "x * 512 - x = 0"
    by simp
  moreover have "x * 512 - x = x * 511"
    by (simp add: algebra_simps)
  ultimately have z: "x * 511 = 0"
    by simp
  have "(511 :: u32) * 4160486911 = 1"
    by simp
  then show ?thesis
    using z by (rule odd_mult_zero)
qed

lemma rotl_11_zero:
  fixes x :: u32
  assumes "push_bit 11 x OR drop_bit 21 x = 0"
  shows "x = 0"
proof -
  from assms have hi: "drop_bit 21 x = 0" and lo: "push_bit 11 x = 0"
    by (simp_all add: or_eq_0_iff)
  show ?thesis
  proof (rule bit_eqI)
    fix n
    show "bit x n \<longleftrightarrow> bit (0 :: u32) n"
    proof (cases "21 \<le> n")
      case True
      have "bit (drop_bit 21 x) (n - 21) = bit x n"
        using True by (simp add: bit_drop_bit_eq)
      then show ?thesis
        using hi by simp
    next
      case False
      have "bit (push_bit 11 x) (n + 11) = bit x n"
        using False by (simp add: bit_push_bit_iff)
      then show ?thesis
        using lo by simp
    qed
  qed
qed

lemma PRNG_next_state_not_all_zero:
  assumes "\<not> all_zero g"
  shows "\<not> all_zero (PRNG_next_state g)"
proof
  assume "all_zero (PRNG_next_state g)"
  then have a0: "s0 g XOR (s3 g XOR s1 g) = 0"
    and a1: "s1 g XOR (s2 g XOR s0 g) = 0"
    and a2: "(s2 g XOR s0 g) XOR push_bit 9 (s1 g) = 0"
    and a3: "push_bit 11 (s3 g XOR s1 g) OR drop_bit 21 (s3 g XOR s1 g) = 0"
    by (simp_all add: all_zero_def PRNG_next_state_def Let_def)
  from a3 have r3: "s3 g XOR s1 g = 0"
    by (rule rotl_11_zero)
  with a0 have z0: "s0 g = 0"
    by simp
  from r3 have e31: "s3 g = s1 g"
    by (rule xor_zero_eq)
  from a1 z0 have "s1 g XOR s2 g = 0"
    by simp
  then have e12: "s2 g = s1 g"
    by (rule xor_zero_eq [symmetric])
  from a2 z0 e12 have "s1 g XOR push_bit 9 (s1 g) = 0"
    by simp
  then have z1: "s1 g = 0"
    by (rule shift_left_9_fixed)
  with z0 e12 e31 have "all_zero g"
    by (simp add: all_zero_def)
  with assms show False
    by simp
qed

lemma funpow_next_state_not_all_zero:
  "\<not> all_zero g \<Longrightarrow> \<not> all_zero ((PRNG_next_state ^^ n) g)"
  by (induction n) (simp_all add: PRNG_next_state_not_all_zero)

text \<open>
  C8.  The four-word state is never all zero: the constructor yields a state with a non-zero
  word for every integer seed, one draw (\<open>next()\<close>) maps a state that is not all zero to a
  state that is not all zero, and hence no number of draws after construction reaches the
  all-zero state.
\<close>

theorem C8_state_never_all_zero:
  "\<not> all_zero (PRNG_new seed)
   \<and> (\<not> all_zero g \<longrightarrow> \<not> all_zero (snd (PRNG_next g)))
   \<and> \<not> all_zero ((PRNG_next_state ^^ n) (PRNG_new seed))"
  by (simp add: PRNG_new_not_all_zero PRNG_next_state_not_all_zero PRNG_next_def
      funpow_next_state_not_all_zero)

theorem C8_state_never_all_zero_witness:
  "\<not> all_zero (PRNG_new 42)
   \<and> \<not> all_zero \<lparr>s0 = 1, s1 = 0, s2 = 0, s3 = 0\<rparr>
   \<and> \<not> all_zero (snd (PRNG_next \<lparr>s0 = 1, s1 = 0, s2 = 0, s3 = 0\<rparr>))
   \<and> \<not> all_zero ((PRNG_next_state ^^ 3) (PRNG_new 42))"
proof -
  have h: "\<not> all_zero \<lparr>s0 = 1, s1 = 0, s2 = 0, s3 = 0\<rparr>"
    by (simp add: all_zero_def)
  show ?thesis
    using h C8_state_never_all_zero [of 42 "\<lparr>s0 = 1, s1 = 0, s2 = 0, s3 = 0\<rparr>" 3]
    by blast
qed

section \<open>Range of the draws\<close>

lemma next_value_multiple:
  "\<exists>k::nat. k < 2 ^ 32 \<and> fst (PRNG_next g) = real k / 2 ^ 32"
proof -
  have "unat (PRNG_next_result g) < 2 ^ 32"
    using unsigned_less [of "PRNG_next_result g", where ?'a = nat] by simp
  then show ?thesis
    by (auto simp: PRNG_next_def intro!: exI [of _ "unat (PRNG_next_result g)"])
qed

lemma next_value_range:
  "0 \<le> fst (PRNG_next g) \<and> fst (PRNG_next g) \<le> 1 - 1 / 2 ^ 32"
proof -
  obtain k :: nat where k: "k < 2 ^ 32" and u: "fst (PRNG_next g) = real k / 2 ^ 32"
    using next_value_multiple by blast
  from k have "k + 1 \<le> 2 ^ 32"
    by simp
  then have "real (k + 1) \<le> real (2 ^ 32)"
    by (simp only: of_nat_le_iff)
  then have "real k \<le> 2 ^ 32 - 1"
    by simp
  then have "real k / 2 ^ 32 \<le> (2 ^ 32 - 1) / 2 ^ 32"
    by (simp add: divide_right_mono)
  moreover have "((2::real) ^ 32 - 1) / 2 ^ 32 = 1 - 1 / 2 ^ 32"
    by (simp add: diff_divide_distrib)
  ultimately show ?thesis
    using u by simp
qed

lemma randn_finite_all: "randn_finite g = Some (fst (PRNG_randn g))"
proof -
  define u1 where "u1 = fst (PRNG_next g)"
  have r: "0 \<le> u1" "u1 \<le> 1 - 1 / 2 ^ 32"
    using next_value_range [of g] by (simp_all add: u1_def)
  have small: "(1::real) / 10 ^ 30 \<le> 1 / 2 ^ 32"
    by simp
  have pos: "0 < u1 + 1 / 10 ^ 30"
    using r(1) by (simp add: add_nonneg_pos)
  have le1: "u1 + 1 / 10 ^ 30 \<le> 1"
    using r(2) small by linarith
  from pos le1 have "ln (u1 + 1 / 10 ^ 30) \<le> 0"
    by simp
  then have nonneg: "0 \<le> - 2 * ln (u1 + 1 / 10 ^ 30)"
    by simp
  from pos nonneg show ?thesis
    by (simp add: randn_finite_def PRNG_randn_def box_muller_def Let_def split_beta
        Math_log_def Math_sqrt_def u1_def)
qed

text \<open>
  C9.  \<open>random()\<close> returns an integer multiple of \<open>2^-32\<close> in the half-open interval
  from 0 to 1.  \<open>randn()\<close> returns a finite number for every generator state: the
  argument of its logarithm is positive and the argument of its square root is
  non-negative, so the evaluation that tracks non-finite results never yields one and
  agrees with \<open>randn()\<close>.
\<close>

theorem C9_random_range_randn_finite:
  "0 \<le> fst (PRNG_random g) \<and> fst (PRNG_random g) < 1
   \<and> (\<exists>k::nat. k < 2 ^ 32 \<and> fst (PRNG_random g) = real k / 2 ^ 32)
   \<and> randn_finite g = Some (fst (PRNG_randn g))"
proof -
  have "fst (PRNG_next g) < 1"
    using next_value_range [of g] by simp
  then show ?thesis
    using next_value_range [of g] next_value_multiple [of g] randn_finite_all [of g]
    by (simp add: PRNG_random_def)
qed

section \<open>Loops over a buffer\<close>

lemma fold_update_length:
  "length (fold (\<lambda>k g. g[b + k := h k g]) [0..<n] g0) = length g0"
  by (induction n) simp_all

lemma fold_update_nth:
  assumes "i < length g0"
  shows "fold (\<lambda>k g. g[b + k := h k (g ! (b + k))]) [0..<n] g0 ! i
           = (if b \<le> i \<and> i < b + n then h (i - b) (g0 ! i) else g0 ! i)"
  using assms
proof (induction n)
  case 0
  then show ?case by auto
next
  case (Suc n)
  let ?g = "fold (\<lambda>k g. g[b + k := h k (g ! (b + k))]) [0..<n] g0"
  have len: "length ?g = length g0"
    by (rule fold_update_length [where h = "\<lambda>k g. h k (g ! (b + k))"])
  show ?case
  proof (cases "i = b + n")
    case True
    then show ?thesis
      using Suc len by simp
  next
    case False
    then show ?thesis
      using Suc len by (auto simp: nth_list_update)
  qed
qed

lemma fold_update0_length:
  "length (fold (\<lambda>k g. g[k := h k g]) [0..<n] g0) = length g0"
  using fold_update_length [of 0 h n g0] by simp

lemma fold_update0_nth:
  assumes "i < length g0"
  shows "fold (\<lambda>k g. g[k := h k (g ! k)]) [0..<n] g0 ! i
           = (if i < n then h i (g0 ! i) else g0 ! i)"
  using fold_update_nth [OF assms, of 0 h n] by simp

lemma write_loop_length: "length (write_loop n f out) = length out"
  unfolding write_loop_def by (rule fold_update0_length)

lemma write_loop_nth:
  "i < length out \<Longrightarrow> write_loop n f out ! i = (if i < n then f i else out ! i)"
  unfolding write_loop_def using fold_update0_nth [of i out "\<lambda>k _. f k" n] by simp

lemma diff_loop_length: "length (diff_loop n xi xj df) = length df"
  unfolding diff_loop_def by (rule fold_update0_length)

lemma diff_loop_nth:
  "k < length df \<Longrightarrow> diff_loop n xi xj df ! k = (if k < n then xi ! k - xj ! k else df ! k)"
  unfolding diff_loop_def using fold_update0_nth [of k df "\<lambda>k _. xi ! k - xj ! k" n] by simp

lemma diff_rSq_loop_eq:
  "n \<le> length df \<Longrightarrow>
     diff_rSq_loop n xi xj df
       = (diff_loop n xi xj df, \<Sum>k<n. (xi ! k - xj ! k) * (xi ! k - xj ! k))"
proof (induction n)
  case 0
  then show ?case by (simp add: diff_rSq_loop_def diff_loop_def)
next
  case (Suc n)
  then have IH: "diff_rSq_loop n xi xj df
       = (diff_loop n xi xj df, \<Sum>k<n. (xi ! k - xj ! k) * (xi ! k - xj ! k))"
    by simp
  have len: "n < length (diff_loop n xi xj df)"
    using Suc.prems by (simp add: diff_loop_length)
  have "diff_rSq_loop (Suc n) xi xj df
          = (\<lambda>(df, rSq). let df = df[n := xi ! n - xj ! n] in (df, rSq + df ! n * df ! n))
              (diff_rSq_loop n xi xj df)"
    by (simp add: diff_rSq_loop_def)
  also have "\<dots> = ((diff_loop n xi xj df)[n := xi ! n - xj ! n],
                    (\<Sum>k<n. (xi ! k - xj ! k) * (xi ! k - xj ! k))
                      + (xi ! n - xj ! n) * (xi ! n - xj ! n))"
    using len by (simp add: IH Let_def)
  also have "\<dots> = (diff_loop (Suc n) xi xj df,
                    \<Sum>k<Suc n. (xi ! k - xj ! k) * (xi ! k - xj ! k))"
    by (simp add: diff_loop_def)
  finally show ?case .
qed

section \<open>The random draws of one step\<close>

lemma fold_invariant:
  assumes "\<And>x s. p (f x s) = p s"
  shows "p (fold f xs s) = p s"
  using assms by (induction xs arbitrary: s) simp_all

lemma randn_state: "snd (PRNG_randn g) = PRNG_next_state (PRNG_next_state g)"
  by (simp add: PRNG_randn_def PRNG_next_def)

lemma randn_fill_state: "snd (randn_fill n g) = (PRNG_next_state ^^ (2 * n)) g"
proof (induction n arbitrary: g)
  case 0
  then show ?case by simp
next
  case (Suc n)
  have "snd (randn_fill (Suc n) g) = snd (randn_fill n (snd (PRNG_randn g)))"
    by (simp add: split_beta)
  also have "\<dots> = (PRNG_next_state ^^ (2 * n)) (PRNG_next_state (PRNG_next_state g))"
    by (simp only: Suc.IH randn_state)
  also have "\<dots> = (PRNG_next_state ^^ (2 * Suc n)) g"
    by (simp add: funpow_swap1)
  finally show ?case .
qed

lemma randn_fill_length: "length (fst (randn_fill n g)) = n"
  by (induction n arbitrary: g) (simp_all add: split_beta)

lemma radial_pair_frame: "frame (radial_pair phi state i j sys) = frame sys"
  by (simp add: radial_pair_def frame_def Let_def split_beta)

lemma vector_pair_frame: "frame (vector_pair phi state i j sys) = frame sys"
  by (simp add: vector_pair_def frame_def Let_def split_beta)

lemma step_particle_frame: "frame (fst (step_particle q i (sys, state))) = frame sys"
proof (cases "Phi sys")
  case (Radial phi)
  have "\<And>s. frame (fold (radial_pair phi state i) [0..<nat (ParticleSystem.N sys)] s) = frame s"
    by (rule fold_invariant) (rule radial_pair_frame)
  then show ?thesis
    using Radial by (simp add: step_particle_def Let_def frame_def)
next
  case (Vector phi)
  have "\<And>s. frame (fold (vector_pair phi state i) [0..<nat (ParticleSystem.N sys)] s) = frame s"
    by (rule fold_invariant) (rule vector_pair_frame)
  then show ?thesis
    using Vector by (simp add: step_particle_def Let_def frame_def)
qed

lemma step_particles_frame:
  "frame (fst (fold (step_particle q) is p)) = frame (fst p)"
proof (induction "is" arbitrary: p)
  case Nil
  then show ?case by simp
next
  case (Cons i "is")
  obtain sys state where p: "p = (sys, state)"
    by (cases p)
  show ?case
    by (simp add: Cons.IH p step_particle_frame)
qed

lemma step_frame:
  "prng (fst (step sys state)) = snd (PRNG_randnArray (noise sys) (prng sys))"
  "noise (fst (step sys state)) = fst (PRNG_randnArray (noise sys) (prng sys))"
  "ParticleSystem.N (fst (step sys state)) = ParticleSystem.N sys"
  "ParticleSystem.d (fst (step sys state)) = ParticleSystem.d sys"
proof -
  define sys1 where "sys1 = sys\<lparr>noise := fst (PRNG_randnArray (noise sys) (prng sys)),
     prng := snd (PRNG_randnArray (noise sys) (prng sys))\<rparr>"
  have "frame (fst (step sys state)) = frame sys1"
    by (simp add: step_def Let_def split_beta sys1_def step_particles_frame)
  then show "prng (fst (step sys state)) = snd (PRNG_randnArray (noise sys) (prng sys))"
  "noise (fst (step sys state)) = fst (PRNG_randnArray (noise sys) (prng sys))"
  "ParticleSystem.N (fst (step sys state)) = ParticleSystem.N sys"
  "ParticleSystem.d (fst (step sys state)) = ParticleSystem.d sys"
    by (simp_all add: frame_def sys1_def prod_eq_iff)
qed

lemma error_eq: "(e = RangeError) \<longleftrightarrow> True"
  by (cases e) simp

lemma ParticleSystem_new_eq:
  "ParticleSystem_new limit V' Phi' sigma' dt' N' d' seed =
     (if d' < 0 \<or> limit < d' \<or> N' * d' < 0 \<or> limit < N' * d' then Inl RangeError
      else Inr \<lparr>V = V', Phi = Phi', sigma = sigma', dt = dt', N = N', d = d',
                gradV = replicate (nat d') 0,
                gradPhi = replicate (nat d') 0,
                diff = replicate (nat d') 0,
                noise = replicate (nat (N' * d')) 0,
                gradOut = replicate (nat d') 0,
                prng = PRNG_new seed\<rparr>)"
  by (simp add: ParticleSystem_new_def Float64Array_new_def Let_def)

lemma new_noise_allocated:
  "ParticleSystem_new limit V' Phi' sigma' dt' N' d' seed = Inr sys \<Longrightarrow> noise_allocated sys"
  by (auto simp: ParticleSystem_new_eq noise_allocated_def split: if_splits)

lemma step_unfolded:
  assumes "noise_allocated sys"
  shows "step sys state
           = fold (step_particle (sqrt (dt sys))) [0..<nat (ParticleSystem.N sys)]
               (sys\<lparr>noise := fst (randn_fill (nat (ParticleSystem.N sys * ParticleSystem.d sys))
                                   (prng sys)),
                    prng := (PRNG_next_state ^^ (2 * nat (ParticleSystem.N sys * ParticleSystem.d sys)))
                              (prng sys)\<rparr>,
                state)"
  using assms
  by (simp add: step_def Let_def split_beta PRNG_randnArray_def noise_allocated_def
      randn_fill_state)

text \<open>
  C5.  A standard-normal draw advances the generator by two uniform draws.  On an
  integrator whose noise buffer has the \<open>N * d\<close> slots the constructor allocates, one call
  to \<open>step\<close> is the particle loop run on the integrator in which the batch is already
  drawn: the noise buffer holds the next \<open>N * d\<close> standard-normal draws and the generator
  is exactly \<open>2 * N * d\<close> uniform draws further before the first particle is processed.
  No particle iteration changes the noise buffer or the generator, so every force
  computation and update reads that batch, and after the step buffer and generator are
  as the batch left them, whatever the positions and the bound potentials.
\<close>

theorem C5_step_draws:
  "snd (PRNG_randn g) = (PRNG_next_state ^^ 2) g
   \<and> (ParticleSystem_new limit V' Phi' sigma' dt' N' d' seed = Inr sysC \<longrightarrow> noise_allocated sysC)
   \<and> frame (fst (step_particle q i (sysP, stateP))) = frame sysP
   \<and> (noise_allocated sys \<longrightarrow>
        step sys state
          = fold (step_particle (sqrt (dt sys))) [0..<nat (ParticleSystem.N sys)]
              (sys\<lparr>noise := fst (randn_fill (nat (ParticleSystem.N sys * ParticleSystem.d sys))
                                  (prng sys)),
                   prng := (PRNG_next_state ^^ (2 * nat (ParticleSystem.N sys * ParticleSystem.d sys)))
                             (prng sys)\<rparr>,
               state)
      \<and> noise (fst (step sys state))
          = fst (randn_fill (nat (ParticleSystem.N sys * ParticleSystem.d sys)) (prng sys))
      \<and> prng (fst (step sys state))
          = (PRNG_next_state ^^ (2 * nat (ParticleSystem.N sys * ParticleSystem.d sys))) (prng sys)
      \<and> noise_allocated (fst (step sys state)))"
proof -
  have a: "snd (PRNG_randn g) = (PRNG_next_state ^^ 2) g"
    by (simp add: randn_state numeral_2_eq_2)
  have b: "ParticleSystem_new limit V' Phi' sigma' dt' N' d' seed = Inr sysC \<longrightarrow> noise_allocated sysC"
    by (simp add: new_noise_allocated)
  have f: "frame (fst (step_particle q i (sysP, stateP))) = frame sysP"
    by (rule step_particle_frame)
  have c: "noise (fst (step sys state))
             = fst (randn_fill (nat (ParticleSystem.N sys * ParticleSystem.d sys)) (prng sys))
      \<and> prng (fst (step sys state))
          = (PRNG_next_state ^^ (2 * nat (ParticleSystem.N sys * ParticleSystem.d sys))) (prng sys)
      \<and> noise_allocated (fst (step sys state))" if "noise_allocated sys"
    using that
    by (simp add: step_frame PRNG_randnArray_def noise_allocated_def randn_fill_state randn_fill_length)
  from a b f c step_unfolded [of sys state] show ?thesis
    by blast
qed

section \<open>Pairwise forces\<close>

lemma pair_distance_sym: "pair_distance n xi xj = pair_distance n xj xi"
proof -
  have "(\<Sum>k<n. (xi ! k - xj ! k) * (xi ! k - xj ! k))
          = (\<Sum>k<n. (xj ! k - xi ! k) * (xj ! k - xi ! k))"
    by (rule sum.cong) (simp_all add: algebra_simps)
  then show ?thesis
    by (simp add: pair_distance_def)
qed

lemma radial_pair_gradPhi:
  assumes "scratch_allocated sys" and "i \<noteq> j" and "k < nat (ParticleSystem.d sys)"
  shows "gradPhi (radial_pair phi state i j sys) ! k
           = gradPhi sys ! k
             + radial_gradient phi
                 (pair_distance (nat (ParticleSystem.d sys)) (getParticle sys state i)
                    (getParticle sys state j))
               * (getParticle sys state i ! k - getParticle sys state j ! k)
               / pair_distance (nat (ParticleSystem.d sys)) (getParticle sys state i)
                   (getParticle sys state j)"
proof -
  let ?n = "nat (ParticleSystem.d sys)"
  let ?xi = "getParticle sys state i" and ?xj = "getParticle sys state j"
  have lens: "length (diff sys) = ?n" "length (gradPhi sys) = ?n"
    using assms(1) by (simp_all add: scratch_allocated_def)
  have loop: "diff_rSq_loop ?n ?xi ?xj (diff sys)
                = (diff_loop ?n ?xi ?xj (diff sys),
                   \<Sum>k<?n. (?xi ! k - ?xj ! k) * (?xi ! k - ?xj ! k))"
    by (rule diff_rSq_loop_eq) (simp add: lens)
  have dk: "diff_loop ?n ?xi ?xj (diff sys) ! k = ?xi ! k - ?xj ! k"
    using assms(3) by (simp add: diff_loop_nth lens)
  have kg: "k < length (gradPhi sys)"
    using assms(3) by (simp add: lens)
  show ?thesis
    using assms(2) assms(3)
    by (simp add: radial_pair_def loop Let_def pair_distance_def
        fold_update0_nth [OF kg, where h = "\<lambda>k v. v + c k" for c] dk)
qed

text \<open>
  C7.  In the radial branch, what the pair \<open>(i, j)\<close> adds to component \<open>k\<close> of the
  interaction accumulator is the exact negation of what the pair \<open>(j, i)\<close> adds: the
  radial derivative at the clamped distance times the displacement component over that
  distance, with the displacement reversed and the distance unchanged.
\<close>

theorem C7_pair_force_antisymmetric:
  assumes "scratch_allocated sys" and "state_fits sys state"
    and "i < nat (ParticleSystem.N sys)" and "j < nat (ParticleSystem.N sys)"
    and "k < nat (ParticleSystem.d sys)"
  shows "gradPhi (radial_pair phi state i j sys) ! k - gradPhi sys ! k
           = - (gradPhi (radial_pair phi state j i sys) ! k - gradPhi sys ! k)"
proof (cases "i = j")
  case True
  then show ?thesis
    by (simp add: radial_pair_def)
next
  case False
  then have ne: "i \<noteq> j" "j \<noteq> i"
    by simp_all
  show ?thesis
    by (simp add: radial_pair_gradPhi [OF assms(1) ne(1) assms(5)]
        radial_pair_gradPhi [OF assms(1) ne(2) assms(5)]
        pair_distance_sym [of _ "getParticle sys state j" "getParticle sys state i"]
        algebra_simps diff_divide_distrib)
qed

section \<open>A single particle\<close>

lemma getParticle_single:
  assumes "ParticleSystem.N sys = 1" and "state_fits sys state"
  shows "getParticle sys state 0 = positions state"
  using assms by (simp add: getParticle_def state_fits_def)

lemma fold_skip: "fold (\<lambda>k g. g) xs s = s"
  by (induction xs) simp_all

lemma zero_fill:
  assumes "length g = n"
  shows "fold (\<lambda>k g. g[k := 0]) [0..<n] g = replicate n (0::real)"
proof (rule nth_equalityI)
  show "length (fold (\<lambda>k g. g[k := 0]) [0..<n] g) = length (replicate n (0::real))"
    using assms fold_update0_length [of "\<lambda>k g. 0" n g] by simp
next
  fix i
  assume "i < length (fold (\<lambda>k g. g[k := 0]) [0..<n] g)"
  then have i: "i < length g"
    using fold_update0_length [of "\<lambda>k g. 0" n g] by simp
  then show "fold (\<lambda>k g. g[k := 0]) [0..<n] g ! i = replicate n (0::real) ! i"
    using assms fold_update0_nth [OF i, of "\<lambda>k v. 0" n] by simp
qed

lemma mean_of_zero:
  "fold (\<lambda>k g. g[k := g ! k / c]) [0..<n] (replicate n (0::real)) = replicate n 0"
proof (rule nth_equalityI)
  show "length (fold (\<lambda>k g. g[k := g ! k / c]) [0..<n] (replicate n (0::real)))
          = length (replicate n (0::real))"
    using fold_update0_length [of "\<lambda>k g. g ! k / c" n] by simp
next
  fix i
  assume "i < length (fold (\<lambda>k g. g[k := g ! k / c]) [0..<n] (replicate n (0::real)))"
  then have i: "i < length (replicate n (0::real))"
    using fold_update0_length [of "\<lambda>k g. g ! k / c" n "replicate n 0"] by simp
  show "fold (\<lambda>k g. g[k := g ! k / c]) [0..<n] (replicate n (0::real)) ! i
          = replicate n (0::real) ! i"
    using i fold_update0_nth [OF i, of "\<lambda>k v. v / c" n] by simp
qed

lemma update_loop_single:
  assumes "length pos = n"
  shows "fold (\<lambda>k pos. pos[0 + k := pos ! (0 + k) + c k]) [0..<n] pos
           = map (\<lambda>k. pos ! k + c k) [0..<n]"
proof (rule nth_equalityI)
  show "length (fold (\<lambda>k pos. pos[0 + k := pos ! (0 + k) + c k]) [0..<n] pos)
          = length (map (\<lambda>k. pos ! k + c k) [0..<n])"
    using assms fold_update_length [of 0 "\<lambda>k pos. pos ! (0 + k) + c k" n pos] by simp
next
  fix i
  assume "i < length (fold (\<lambda>k pos. pos[0 + k := pos ! (0 + k) + c k]) [0..<n] pos)"
  then have i: "i < length pos"
    using fold_update_length [of 0 "\<lambda>k pos. pos ! (0 + k) + c k" n pos] by simp
  show "fold (\<lambda>k pos. pos[0 + k := pos ! (0 + k) + c k]) [0..<n] pos ! i
          = map (\<lambda>k. pos ! k + c k) [0..<n] ! i"
    using i assms fold_update_nth [OF i, of 0 "\<lambda>k v. v + c k" n] by simp
qed

lemma step_particle_single:
  assumes sa: "scratch_allocated sys" and n1: "ParticleSystem.N sys = 1"
    and sf: "state_fits sys state"
  shows "step_particle q 0 (sys, state)
           = (sys\<lparr>gradV := V_gradient (V sys) (positions state) (gradV sys),
                  gradPhi := replicate (nat (ParticleSystem.d sys)) 0\<rparr>,
              state\<lparr>positions :=
                map (\<lambda>k. positions state ! k
                        + (- V_gradient (V sys) (positions state) (gradV sys) ! k * dt sys
                           + sigma sys * q * noise sys ! k))
                  [0..<nat (ParticleSystem.d sys)]\<rparr>)"
proof -
  let ?n = "nat (ParticleSystem.d sys)"
  have lens: "length (gradPhi sys) = ?n" "length (positions state) = ?n"
    using sa sf n1 by (simp_all add: scratch_allocated_def state_fits_def)
  have nth0: "k \<in> set [0..<?n] \<Longrightarrow> replicate ?n (0::real) ! k = 0" for k
    by simp
  show ?thesis
    using update_loop_single [OF lens(2)]
    by (cases "Phi sys")
      (simp_all add: step_particle_def Let_def n1 radial_pair_def vector_pair_def
        zero_fill [OF lens(1)] mean_of_zero fold_skip getParticle_single [OF n1 sf] nth0
        cong: map_cong)
qed

lemma V_gradient_length: "length (V_gradient v x out) = length out"
  by (cases v) (simp_all add: write_loop_length Let_def)

text \<open>
  C10.  With \<open>N = 1\<close> the interaction accumulator is the zero vector after the step (the
  only pair is the skipped self-pair), the new position is
  \<open>x + (- grad V(x)) * dt + sigma * sqrt dt * noise\<close> componentwise, and the integrator
  and the state are again as the step requires them, so the same holds at every later
  step.
\<close>

theorem C10_single_particle_step:
  assumes "scratch_allocated sys" and "noise_allocated sys"
    and "ParticleSystem.N sys = 1" and "state_fits sys state" and "0 \<le> dt sys"
  shows "gradPhi (fst (step sys state)) = replicate (nat (ParticleSystem.d sys)) 0
    \<and> positions (snd (step sys state))
        = map (\<lambda>k. positions state ! k
                 + (- V_gradient (V sys) (positions state) (gradV sys) ! k * dt sys
                    + sigma sys * sqrt (dt sys)
                      * fst (randn_fill (nat (ParticleSystem.d sys)) (prng sys)) ! k))
            [0..<nat (ParticleSystem.d sys)]
    \<and> scratch_allocated (fst (step sys state)) \<and> noise_allocated (fst (step sys state))
    \<and> ParticleSystem.N (fst (step sys state)) = 1
    \<and> state_fits (fst (step sys state)) (snd (step sys state))"
proof -
  define sys1 where "sys1 = sys\<lparr>noise := fst (PRNG_randnArray (noise sys) (prng sys)),
     prng := snd (PRNG_randnArray (noise sys) (prng sys))\<rparr>"
  have sa1: "scratch_allocated sys1" and n1: "ParticleSystem.N sys1 = 1"
    and sf1: "state_fits sys1 state"
    using assms(1,3,4) by (simp_all add: sys1_def scratch_allocated_def state_fits_def)
  have "step sys state = step_particle (sqrt (dt sys)) 0 (sys1, state)"
    by (simp add: step_def Let_def split_beta sys1_def assms(3))
  then have eq: "step sys state
           = (sys1\<lparr>gradV := V_gradient (V sys1) (positions state) (gradV sys1),
                  gradPhi := replicate (nat (ParticleSystem.d sys1)) 0\<rparr>,
              state\<lparr>positions :=
                map (\<lambda>k. positions state ! k
                        + (- V_gradient (V sys1) (positions state) (gradV sys1) ! k * dt sys1
                           + sigma sys1 * sqrt (dt sys) * noise sys1 ! k))
                  [0..<nat (ParticleSystem.d sys1)]\<rparr>)"
    by (simp only: step_particle_single [OF sa1 n1 sf1])
  have nz: "noise sys1 = fst (randn_fill (nat (ParticleSystem.d sys)) (prng sys))"
    using assms(2,3) by (simp add: sys1_def PRNG_randnArray_def noise_allocated_def)
  show ?thesis
    using assms(1,2,3)
    by (simp add: eq nz scratch_allocated_def noise_allocated_def state_fits_def
        V_gradient_length randn_fill_length)
      (simp add: sys1_def)
qed

section \<open>Gradients of the radial potentials\<close>

lemma gaussian_deriv:
  assumes "sg \<noteq> 0"
  shows "(radial_evaluate (GaussianInteraction A sg)
            has_real_derivative radial_gradient (GaussianInteraction A sg) r) (at r)"
proof -
  have ev: "radial_evaluate (GaussianInteraction A sg)
              = (\<lambda>r. A * exp (- r * r / (2 * sg * sg)))"
    by (rule ext) simp
  have gr: "radial_gradient (GaussianInteraction A sg) r
              = - A * r / (sg * sg) * exp (- r * r / (2 * (sg * sg)))"
    by (simp add: Let_def)
  have d: "((\<lambda>r. A * exp (- r * r / (2 * sg * sg)))
             has_real_derivative - A * r / (sg * sg) * exp (- r * r / (2 * (sg * sg)))) (at r)"
    using assms by (auto intro!: derivative_eq_intros simp: field_simps)
  show ?thesis
    unfolding ev gr by (rule d)
qed

lemma inverse_deriv:
  assumes "r + 1 \<noteq> 0"
  shows "(radial_evaluate (InverseInteraction gamma)
            has_real_derivative radial_gradient (InverseInteraction gamma) r) (at r)"
proof -
  have ev: "radial_evaluate (InverseInteraction gamma) = (\<lambda>r. gamma / (r + 1))"
    by (rule ext) simp
  have gr: "radial_gradient (InverseInteraction gamma) r = - gamma / ((r + 1) * (r + 1))"
    by simp
  have d: "((\<lambda>r. gamma / (r + 1)) has_real_derivative - gamma / ((r + 1) * (r + 1))) (at r)"
    using assms by (auto intro!: derivative_eq_intros simp: field_simps)
  show ?thesis
    unfolding ev gr by (rule d)
qed

lemma morse_deriv:
  "(radial_evaluate (MorsePotential D a r0)
      has_real_derivative radial_gradient (MorsePotential D a r0) r) (at r)"
proof -
  have ev: "radial_evaluate (MorsePotential D a r0)
              = (\<lambda>r. D * (1 - exp (- a * (r - r0))) ^ 2)"
    by (rule ext) (simp add: Let_def)
  have gr: "radial_gradient (MorsePotential D a r0) r
              = 2 * D * a * (1 - exp (- a * (r - r0))) * exp (- a * (r - r0))"
    by (simp add: Let_def)
  have d: "((\<lambda>r. D * (1 - exp (- a * (r - r0))) ^ 2)
             has_real_derivative
               2 * D * a * (1 - exp (- a * (r - r0))) * exp (- a * (r - r0))) (at r)"
    by (auto intro!: derivative_eq_intros simp: field_simps)
  show ?thesis
    unfolding ev gr by (rule d)
qed

lemma sech_square:
  fixes u :: real
  shows "1 - tanh u ^ 2 = 1 / cosh u ^ 2"
proof -
  have c0: "cosh u ^ 2 \<noteq> 0"
    using cosh_real_pos [of u] by simp
  have "1 - tanh u ^ 2 = (cosh u ^ 2 - sinh u ^ 2) / cosh u ^ 2"
    using c0 by (simp add: tanh_def power_divide diff_divide_distrib)
  also have "cosh u ^ 2 - sinh u ^ 2 = 1"
    by (simp add: cosh_square_eq)
  finally show ?thesis .
qed

lemma tanh_window_deriv:
  assumes "eps \<noteq> 0"
  shows "((\<lambda>r. tanh ((r - c) / eps))
            has_real_derivative (1 / cosh ((r - c) / eps) ^ 2) / eps) (at r)"
proof -
  have c0: "cosh ((r - c) / eps) \<noteq> 0"
    using cosh_real_pos [of "(r - c) / eps"] by simp
  have "((\<lambda>r. tanh ((r - c) / eps))
           has_real_derivative (1 - tanh ((r - c) / eps) ^ 2) * (1 / eps)) (at r)"
    using c0 assms by (auto intro!: derivative_eq_intros)
  then show ?thesis
    by (simp only: sech_square times_divide_eq_right mult_1_right)
qed

lemma smoothInd_deriv:
  assumes "eps \<noteq> 0"
  shows "((\<lambda>r. smoothInd eps r lo hi) has_real_derivative smoothIndGrad eps r lo hi) (at r)"
proof -
  have ev: "(\<lambda>r. smoothInd eps r lo hi)
              = (\<lambda>r. 0.5 * (tanh ((r - lo) / eps) - tanh ((r - hi) / eps)))"
    by (rule ext) (simp add: smoothInd_def)
  have "((\<lambda>r. tanh ((r - lo) / eps) - tanh ((r - hi) / eps))
          has_real_derivative
            (1 / cosh ((r - lo) / eps) ^ 2) / eps - (1 / cosh ((r - hi) / eps) ^ 2) / eps) (at r)"
    by (rule DERIV_diff) (rule tanh_window_deriv [OF assms])+
  then have d: "((\<lambda>r. 0.5 * (tanh ((r - lo) / eps) - tanh ((r - hi) / eps)))
          has_real_derivative
            0.5 * ((1 / cosh ((r - lo) / eps) ^ 2) / eps - (1 / cosh ((r - hi) / eps) ^ 2) / eps))
          (at r)"
    by (rule DERIV_cmult)
  have gr: "smoothIndGrad eps r lo hi
              = 0.5 * ((1 / cosh ((r - lo) / eps) ^ 2) / eps - (1 / cosh ((r - hi) / eps) ^ 2) / eps)"
    using assms by (simp add: smoothIndGrad_def Let_def field_simps)
  show ?thesis
    unfolding ev gr by (rule d)
qed

lemma piecewise_deriv:
  assumes "eps \<noteq> 0"
  shows "(radial_evaluate (PiecewiseInteraction beta1 beta2 eps)
            has_real_derivative radial_gradient (PiecewiseInteraction beta1 beta2 eps) r) (at r)"
proof -
  have ev: "radial_evaluate (PiecewiseInteraction beta1 beta2 eps)
              = (\<lambda>r. beta1 * smoothInd eps r 0.5 1 + beta2 * smoothInd eps r 1 2)"
    by (rule ext) simp
  have gr: "radial_gradient (PiecewiseInteraction beta1 beta2 eps) r
              = beta1 * smoothIndGrad eps r 0.5 1 + beta2 * smoothIndGrad eps r 1 2"
    by simp
  have d: "((\<lambda>r. beta1 * smoothInd eps r 0.5 1 + beta2 * smoothInd eps r 1 2)
           has_real_derivative
             beta1 * smoothIndGrad eps r 0.5 1 + beta2 * smoothIndGrad eps r 1 2) (at r)"
    by (rule DERIV_add) (rule DERIV_cmult, rule smoothInd_deriv [OF assms])+
  show ?thesis
    unfolding ev gr by (rule d)
qed

lemma sixth_power_deriv:
  assumes "r \<noteq> 0"
  shows "((\<lambda>x. (s / x) ^ 6) has_real_derivative - 6 * (s / r) ^ 6 / r) (at r)"
proof -
  have "((\<lambda>x. (s / x) ^ 6) has_real_derivative 6 * (s / r) ^ 5 * (- s / (r * r))) (at r)"
    using assms by (auto intro!: derivative_eq_intros)
  moreover have "6 * (s / r) ^ 5 * (- s / (r * r)) = - 6 * (s / r) ^ 6 / r"
    using assms by (simp add: eval_nat_numeral)
  ultimately show ?thesis
    by simp
qed

lemma lj_inner_deriv:
  assumes "r \<noteq> 0"
  shows "((\<lambda>x. 4 * e * ((s / x) ^ 6 * (s / x) ^ 6 - (s / x) ^ 6) - sh)
            has_real_derivative
              (4 * e / r) * (- 12 * (s / r) ^ 6 * (s / r) ^ 6 + 6 * (s / r) ^ 6)) (at r)"
proof -
  define u where "u = (s / r) ^ 6"
  have du: "((\<lambda>x. (s / x) ^ 6) has_real_derivative - 6 * u / r) (at r)"
    unfolding u_def by (rule sixth_power_deriv [OF assms])
  have "((\<lambda>x. (s / x) ^ 6 * (s / x) ^ 6 - (s / x) ^ 6)
           has_real_derivative
             ((- 6 * u / r) * (s / r) ^ 6 + (- 6 * u / r) * (s / r) ^ 6) - (- 6 * u / r)) (at r)"
    by (rule DERIV_diff [OF DERIV_mult [OF du du] du])
  then have "((\<lambda>x. 4 * e * ((s / x) ^ 6 * (s / x) ^ 6 - (s / x) ^ 6))
           has_real_derivative
             4 * e * (((- 6 * u / r) * (s / r) ^ 6 + (- 6 * u / r) * (s / r) ^ 6) - (- 6 * u / r)))
          (at r)"
    by (rule DERIV_cmult)
  then have "((\<lambda>x. 4 * e * ((s / x) ^ 6 * (s / x) ^ 6 - (s / x) ^ 6) - sh)
           has_real_derivative
             4 * e * (((- 6 * u / r) * (s / r) ^ 6 + (- 6 * u / r) * (s / r) ^ 6) - (- 6 * u / r)) - 0)
          (at r)"
    by (rule DERIV_diff) simp
  moreover have "4 * e * (((- 6 * u / r) * (s / r) ^ 6 + (- 6 * u / r) * (s / r) ^ 6) - (- 6 * u / r)) - 0
                   = (4 * e / r) * (- 12 * (s / r) ^ 6 * (s / r) ^ 6 + 6 * (s / r) ^ 6)"
    using assms unfolding u_def [symmetric] by (simp add: field_simps)
  ultimately show ?thesis
    by simp
qed

lemma lj_deriv_inside:
  assumes "rSafe < r" and "r < rCut" and "r \<noteq> 0"
  shows "(radial_evaluate (LennardJonesPotential e s rCut rSafe sh)
            has_real_derivative
              radial_gradient (LennardJonesPotential e s rCut rSafe sh) r) (at r)"
proof -
  have "eventually (\<lambda>x. x \<in> {rSafe<..<rCut}) (nhds r)"
    using assms by (intro eventually_nhds_in_open) simp_all
  then have ev: "eventually (\<lambda>x. radial_evaluate (LennardJonesPotential e s rCut rSafe sh) x
                    = 4 * e * ((s / x) ^ 6 * (s / x) ^ 6 - (s / x) ^ 6) - sh) (nhds r)"
    by (rule eventually_mono) (simp add: Let_def max_def)
  have gr: "radial_gradient (LennardJonesPotential e s rCut rSafe sh) r
              = (4 * e / r) * (- 12 * (s / r) ^ 6 * (s / r) ^ 6 + 6 * (s / r) ^ 6)"
    using assms by (simp add: Let_def max_def)
  show ?thesis
    unfolding gr
    using lj_inner_deriv [OF assms(3), of e s sh]
    by (simp only: DERIV_cong_ev [OF refl ev refl])
qed

lemma lj_deriv_outside:
  assumes "rCut < r"
  shows "(radial_evaluate (LennardJonesPotential e s rCut rSafe sh)
            has_real_derivative
              radial_gradient (LennardJonesPotential e s rCut rSafe sh) r) (at r)"
proof -
  have "eventually (\<lambda>x. x \<in> {rCut<..}) (nhds r)"
    using assms by (intro eventually_nhds_in_open) simp_all
  then have ev: "eventually (\<lambda>x. radial_evaluate (LennardJonesPotential e s rCut rSafe sh) x
                    = 0) (nhds r)"
    by (rule eventually_mono) simp
  have gr: "radial_gradient (LennardJonesPotential e s rCut rSafe sh) r = 0"
    using assms by simp
  have "((\<lambda>x. 0 :: real) has_real_derivative 0) (at r)"
    by simp
  then show ?thesis
    unfolding gr by (simp only: DERIV_cong_ev [OF refl ev refl])
qed

lemma lj_flat_below_clamp:
  assumes "r < rSafe" and "r < rCut"
  shows "(radial_evaluate (LennardJonesPotential e s rCut rSafe sh)
            has_real_derivative 0) (at r)"
proof -
  have "eventually (\<lambda>x. x \<in> {..<min rSafe rCut}) (nhds r)"
    using assms by (intro eventually_nhds_in_open) simp_all
  then have ev: "eventually (\<lambda>x. radial_evaluate (LennardJonesPotential e s rCut rSafe sh) x
                    = 4 * e * ((s / rSafe) ^ 6 * (s / rSafe) ^ 6 - (s / rSafe) ^ 6) - sh) (nhds r)"
    by (rule eventually_mono) (simp add: Let_def max_def)
  have "((\<lambda>x. 4 * e * ((s / rSafe) ^ 6 * (s / rSafe) ^ 6 - (s / rSafe) ^ 6) - sh)
           has_real_derivative 0) (at r)"
    by simp
  then show ?thesis
    by (simp only: DERIV_cong_ev [OF refl ev refl])
qed

lemma radial_deriv:
  assumes "radial_regular p r"
  shows "(radial_evaluate p has_real_derivative radial_gradient p r) (at r)"
proof (cases p)
  case (GaussianInteraction A sg)
  show ?thesis
    unfolding GaussianInteraction
    using assms by (intro gaussian_deriv) (simp add: GaussianInteraction)
next
  case (PiecewiseInteraction beta1 beta2 eps)
  show ?thesis
    unfolding PiecewiseInteraction
    using assms by (intro piecewise_deriv) (simp add: PiecewiseInteraction)
next
  case (InverseInteraction gamma)
  show ?thesis
    unfolding InverseInteraction
    using assms by (intro inverse_deriv) (simp add: InverseInteraction)
next
  case (MorsePotential D a r0)
  show ?thesis
    unfolding MorsePotential by (rule morse_deriv)
next
  case (LennardJonesPotential e s rCut rSafe sh)
  from assms consider "rCut < r" | "rSafe < r" "r < rCut" "r \<noteq> 0"
    by (auto simp: LennardJonesPotential)
  then show ?thesis
  proof cases
    case 1
    then show ?thesis
      unfolding LennardJonesPotential by (rule lj_deriv_outside)
  next
    case 2
    then show ?thesis
      unfolding LennardJonesPotential by (rule lj_deriv_inside)
  qed
qed

text \<open>
  C3, as stated, fails inside a clamp.  For the default Lennard-Jones potential
  (\<open>rSafe = 0.35\<close>) and \<open>r = 0.2\<close>, \<open>evaluate\<close> is constant around \<open>r\<close>, so its
  derivative is 0, while \<open>gradient\<close> returns the non-zero slope of the unclamped formula
  at \<open>rSafe\<close>.
\<close>

theorem C3_lennard_jones_clamp_counterexample:
  "\<not> (radial_evaluate (LennardJonesPotential_new 0.5 0.5 2.5 0.7)
        has_real_derivative
          radial_gradient (LennardJonesPotential_new 0.5 0.5 2.5 0.7) 0.2) (at 0.2)"
proof
  let ?p = "LennardJonesPotential_new 0.5 0.5 2.5 0.7"
  assume d: "(radial_evaluate ?p has_real_derivative radial_gradient ?p 0.2) (at 0.2)"
  have "(radial_evaluate ?p has_real_derivative 0) (at 0.2)"
    unfolding LennardJonesPotential_new_def Let_def
    by (rule lj_flat_below_clamp) simp_all
  with d have "radial_gradient ?p 0.2 = 0"
    by (rule DERIV_unique)
  then show False
    by (simp add: LennardJonesPotential_new_def Let_def power_divide)
qed

section \<open>The Lennard-Jones cutoff\<close>

lemma lj_beyond_cutoff:
  assumes "rCut \<le> r"
  shows "radial_evaluate (LennardJonesPotential_new e s rCut f) r = 0"
    and "radial_gradient (LennardJonesPotential_new e s rCut f) r = 0"
  using assms by (simp_all add: LennardJonesPotential_new_def Let_def)

lemma twelfth_power: "(x::real) ^ 6 * x ^ 6 = x ^ 12" "((x::real) ^ 6) ^ 2 = x ^ 12"
  by (simp_all add: power_add [symmetric] power_mult [symmetric])

lemma lj_below_cutoff:
  assumes "f * s \<le> r" and "r < rCut"
  shows "radial_evaluate (LennardJonesPotential_new e s rCut f) r = lj_shifted e s rCut r"
  using assms
  by (simp add: LennardJonesPotential_new_def Let_def max_def lj_shifted_def twelfth_power)

lemma lj_shifted_cont:
  assumes "rCut \<noteq> 0"
  shows "isCont (lj_shifted e s rCut) rCut"
  unfolding lj_shifted_def [abs_def] using assms by (intro continuous_intros) simp_all

lemma lj_shifted_at_cutoff: "lj_shifted e s rCut rCut = 0"
  by (simp add: lj_shifted_def)

lemma lj_left_limit:
  assumes "rCut \<noteq> 0"
  shows "(lj_shifted e s rCut \<longlongrightarrow> 0) (at_left rCut)"
proof -
  have "(lj_shifted e s rCut \<longlongrightarrow> lj_shifted e s rCut rCut) (at rCut)"
    using lj_shifted_cont [OF assms] by (simp add: isCont_def)
  then have "(lj_shifted e s rCut \<longlongrightarrow> lj_shifted e s rCut rCut) (at_left rCut)"
    by (rule filterlim_mono) (simp_all add: at_le)
  then show ?thesis
    by (simp add: lj_shifted_at_cutoff)
qed

lemma lj_continuous_at_cutoff:
  assumes "f * s < rCut" and "rCut \<noteq> 0"
  shows "isCont (radial_evaluate (LennardJonesPotential_new e s rCut f)) rCut"
proof -
  let ?h = "\<lambda>r. if r \<le> rCut then lj_shifted e s rCut r else 0"
  have "continuous (at_left rCut) (lj_shifted e s rCut)"
    using lj_shifted_cont [OF assms(2)] by (simp add: continuous_at_imp_continuous_at_within)
  moreover have "((\<lambda>r. 0::real) \<longlongrightarrow> lj_shifted e s rCut rCut) (at_right rCut)"
    by (simp add: lj_shifted_at_cutoff)
  ultimately have h: "isCont ?h rCut"
    by (rule isCont_If_ge)
  have "eventually (\<lambda>r. r \<in> {f * s<..}) (nhds rCut)"
    using assms(1) by (intro eventually_nhds_in_open) simp_all
  then have ev: "eventually (\<lambda>r. ?h r = radial_evaluate (LennardJonesPotential_new e s rCut f) r)
                   (nhds rCut)"
  proof (rule eventually_mono)
    fix r
    assume "r \<in> {f * s<..}"
    then have lo: "f * s \<le> r"
      by simp
    show "?h r = radial_evaluate (LennardJonesPotential_new e s rCut f) r"
    proof (cases "r < rCut")
      case True
      then show ?thesis
        using lj_below_cutoff [OF lo True, of e] by simp
    next
      case False
      then have ge: "rCut \<le> r"
        by simp
      show ?thesis
      proof (cases "r = rCut")
        case True
        then show ?thesis
          using lj_beyond_cutoff(1) [OF ge, of e s f] by (simp add: lj_shifted_at_cutoff)
      next
        case False
        with ge show ?thesis
          using lj_beyond_cutoff(1) [OF ge, of e s f] by simp
      qed
    qed
  qed
  show ?thesis
    using h isCont_cong [OF ev] by simp
qed

text \<open>
  C6.  At and beyond the cutoff a Lennard-Jones potential and its gradient are exactly 0.
  From the clamp radius \<open>rSafe = rSafeFactor * sigmaLJ\<close> up to the cutoff, \<open>evaluate\<close> is
  the shifted formula.  When the clamp radius lies below a non-zero cutoff, that formula
  tends to 0 as \<open>r\<close> approaches the cutoff from below, and \<open>evaluate\<close> is continuous at
  the cutoff.
\<close>

theorem C6_lennard_jones_cutoff:
  "(rCut \<le> r \<longrightarrow>
      radial_evaluate (LennardJonesPotential_new e s rCut f) r = 0
      \<and> radial_gradient (LennardJonesPotential_new e s rCut f) r = 0)
   \<and> (f * s \<le> r \<and> r < rCut \<longrightarrow>
        radial_evaluate (LennardJonesPotential_new e s rCut f) r = lj_shifted e s rCut r)
   \<and> (f * s < rCut \<and> rCut \<noteq> 0 \<longrightarrow>
        (lj_shifted e s rCut \<longlongrightarrow> 0) (at_left rCut)
        \<and> isCont (radial_evaluate (LennardJonesPotential_new e s rCut f)) rCut)"
  using lj_beyond_cutoff [of rCut r e s f] lj_below_cutoff [of f s r rCut e]
    lj_left_limit [of rCut e s] lj_continuous_at_cutoff [of f s rCut e]
  by blast

section \<open>Gradients of the potentials of a vector\<close>

lemma fold_sum: "fold (\<lambda>i s. s + g i) [0..<n] a = a + (\<Sum>i<n. g i :: real)"
  by (induction n) simp_all

lemma sum_sq_eq: "sum_sq x = (\<Sum>i<length x. x ! i * x ! i)"
  by (simp add: sum_sq_def fold_sum)

lemma sum_update:
  assumes "i < length x"
  shows "(\<Sum>k<length x. G k (x[i := t] ! k))
           = (\<Sum>k\<in>{..<length x} - {i}. G k (x ! k)) + (G i t :: real)"
proof -
  have "(\<Sum>k<length x. G k (x[i := t] ! k))
          = G i (x[i := t] ! i) + (\<Sum>k\<in>{..<length x} - {i}. G k (x[i := t] ! k))"
    using assms by (intro sum.remove) simp_all
  also have "(\<Sum>k\<in>{..<length x} - {i}. G k (x[i := t] ! k))
               = (\<Sum>k\<in>{..<length x} - {i}. G k (x ! k))"
    by (rule sum.cong) simp_all
  finally show ?thesis
    using assms by simp
qed

lemma sum_sq_update:
  assumes "i < length x"
  shows "sum_sq (x[i := t]) = (\<Sum>k\<in>{..<length x} - {i}. x ! k * x ! k) + t * t"
  using sum_update [OF assms, of "\<lambda>k v. v * v" t] by (simp add: sum_sq_eq)

lemma sum_sq_deriv:
  assumes "i < length x"
  shows "((\<lambda>t. sum_sq (x[i := t])) has_real_derivative 2 * x ! i) (at (x ! i))"
proof -
  have "((\<lambda>t. (\<Sum>k\<in>{..<length x} - {i}. x ! k * x ! k) + t * t)
           has_real_derivative 2 * x ! i) (at (x ! i))"
    by (auto intro!: derivative_eq_intros)
  then show ?thesis
    by (simp add: sum_sq_update [OF assms])
qed

lemma harmonic_deriv:
  assumes "i < length x" and "i < length out"
  shows "((\<lambda>t. V_evaluate (HarmonicPotential k) (x[i := t]))
            has_real_derivative V_gradient (HarmonicPotential k) x out ! i) (at (x ! i))"
proof -
  have "((\<lambda>t. 0.5 * k * sum_sq (x[i := t])) has_real_derivative 0.5 * k * (2 * x ! i))
          (at (x ! i))"
    by (rule DERIV_cmult [OF sum_sq_deriv [OF assms(1)]])
  then show ?thesis
    using assms by (simp add: write_loop_nth)
qed

lemma double_well_deriv:
  assumes "i < length x" and "i < length out"
  shows "((\<lambda>t. V_evaluate DoubleWellPotential (x[i := t]))
            has_real_derivative V_gradient DoubleWellPotential x out ! i) (at (x ! i))"
proof -
  have dq: "((\<lambda>t. sum_sq (x[i := t])) has_real_derivative 2 * x ! i) (at (x ! i))"
    by (rule sum_sq_deriv [OF assms(1)])
  have "((\<lambda>t. 0.25 * (sum_sq (x[i := t]) - 1) ^ 2)
           has_real_derivative (sum_sq x - 1) * x ! i) (at (x ! i))"
    by (auto intro!: derivative_eq_intros dq)
  then show ?thesis
    using assms by (simp add: write_loop_nth Let_def)
qed

lemma quadratic_deriv:
  assumes "i < length x" and "i < length out"
    and "1 / 10 ^ 10 \<le> sqrt (sum_sq x)"
  shows "((\<lambda>t. V_evaluate (QuadraticConfinement alpha1 alpha2) (x[i := t]))
            has_real_derivative V_gradient (QuadraticConfinement alpha1 alpha2) x out ! i)
          (at (x ! i))"
proof -
  have pos: "0 < sqrt (sum_sq x)"
    using assms(3) by (rule less_le_trans [rotated]) simp
  then have pos': "0 < sum_sq x"
    by simp
  have dq: "((\<lambda>t. sum_sq (x[i := t])) has_real_derivative 2 * x ! i) (at (x ! i))"
    by (rule sum_sq_deriv [OF assms(1)])
  have "((\<lambda>t. 0.5 * alpha1 * sqrt (sum_sq (x[i := t])) + alpha2 * sum_sq (x[i := t]))
           has_real_derivative
             0.5 * alpha1 / sqrt (sum_sq x) * x ! i + 2 * alpha2 * x ! i) (at (x ! i))"
    using pos pos' by (auto intro!: derivative_eq_intros dq simp: field_simps)
  moreover have "max (sqrt (sum_sq x)) (1 / 10 ^ 10) = sqrt (sum_sq x)"
    using assms(3) by (simp add: max_def)
  ultimately show ?thesis
    using assms(1,2) by (simp add: write_loop_nth Let_def)
qed

lemma aniso_conf_deriv:
  assumes "i < length x" and "i < length out"
  shows "((\<lambda>t. V_evaluate (AnisotropicConfinement a) (x[i := t]))
            has_real_derivative V_gradient (AnisotropicConfinement a) x out ! i) (at (x ! i))"
proof -
  have ev: "V_evaluate (AnisotropicConfinement a) (x[i := t])
              = (\<Sum>k\<in>{..<length x} - {i}. a ! k * x ! k * x ! k) + a ! i * t * t" for t
    using sum_update [OF assms(1), of "\<lambda>k v. a ! k * v * v" t] by (simp add: fold_sum)
  have "((\<lambda>t. (\<Sum>k\<in>{..<length x} - {i}. a ! k * x ! k * x ! k) + a ! i * t * t)
           has_real_derivative 2 * a ! i * x ! i) (at (x ! i))"
    by (auto intro!: derivative_eq_intros)
  then show ?thesis
    using assms by (simp add: ev write_loop_nth del: V_evaluate.simps)
qed

lemma V_deriv:
  assumes "V_regular v x" and "i < length x" and "i < length out"
  shows "((\<lambda>t. V_evaluate v (x[i := t])) has_real_derivative V_gradient v x out ! i)
           (at (x ! i))"
proof (cases v)
  case (HarmonicPotential k)
  show ?thesis
    unfolding HarmonicPotential by (rule harmonic_deriv [OF assms(2,3)])
next
  case (QuadraticConfinement alpha1 alpha2)
  show ?thesis
    unfolding QuadraticConfinement
    using assms(1) by (intro quadratic_deriv [OF assms(2,3)]) (simp add: QuadraticConfinement)
next
  case DoubleWellPotential
  show ?thesis
    unfolding DoubleWellPotential by (rule double_well_deriv [OF assms(2,3)])
next
  case (AnisotropicConfinement a)
  show ?thesis
    unfolding AnisotropicConfinement by (rule aniso_conf_deriv [OF assms(2,3)])
qed

lemma aniso_gauss_deriv:
  assumes "i < length z" and "i < length out"
    and "length z \<le> length sSq" and "sSq ! i \<noteq> 0"
  shows "((\<lambda>t. vector_evaluate (AnisotropicGaussianInteraction A s sSq) (z[i := t]))
            has_real_derivative
              vector_gradient (AnisotropicGaussianInteraction A s sSq) z out ! i) (at (z ! i))"
proof -
  define C where "C = (\<Sum>k\<in>{..<length z} - {i}. z ! k * z ! k / sSq ! k)"
  have ev: "vector_evaluate (AnisotropicGaussianInteraction A s sSq) (z[i := t])
              = A * exp (- 0.5 * (C + t * t / sSq ! i))" for t
    using sum_update [OF assms(1), of "\<lambda>k v. v * v / sSq ! k" t]
    by (simp add: fold_sum Let_def C_def)
  have ev0: "vector_evaluate (AnisotropicGaussianInteraction A s sSq) z
              = A * exp (- 0.5 * (C + z ! i * z ! i / sSq ! i))"
    using ev [of "z ! i"] by simp
  have "((\<lambda>t. A * exp (- 0.5 * (C + t * t / sSq ! i)))
           has_real_derivative
             - (A * exp (- 0.5 * (C + z ! i * z ! i / sSq ! i))) * z ! i / sSq ! i) (at (z ! i))"
    using assms(4) by (auto intro!: derivative_eq_intros simp: field_simps)
  then show ?thesis
    using assms(1,2) by (simp add: ev write_loop_nth Let_def ev0 del: vector_evaluate.simps)
qed

lemma vector_deriv:
  assumes "vector_regular q z" and "i < length z" and "i < length out"
  shows "((\<lambda>t. vector_evaluate q (z[i := t])) has_real_derivative vector_gradient q z out ! i)
           (at (z ! i))"
proof (cases q)
  case (AnisotropicGaussianInteraction A s sSq)
  have len: "length z \<le> length sSq"
    and all: "list_all (\<lambda>q. q \<noteq> 0) (take (length z) sSq)"
    using assms(1) by (simp_all add: AnisotropicGaussianInteraction)
  have "take (length z) sSq ! i \<noteq> 0"
    using all assms(2) len by (simp add: list_all_length del: nth_take)
  then have "sSq ! i \<noteq> 0"
    using assms(2) by simp
  then show ?thesis
    unfolding AnisotropicGaussianInteraction
    by (intro aniso_gauss_deriv [OF assms(2,3) len])
qed

section \<open>Gradient correctness\<close>

text \<open>
  C3, amended.  Outside the clamps, every gradient of the library is the derivative of
  its \<open>evaluate\<close>: for a confinement potential and for the anisotropic Gaussian, each
  component written by \<open>gradient\<close> is the partial derivative in that coordinate; for a
  radial potential, \<open>gradient\<close> is the derivative in \<open>r\<close>.  The excluded inputs are a
  quadratic confinement below its norm floor, a Lennard-Jones potential at or below its
  clamp radius and at its cutoff, and parameters that divide by zero.
\<close>

theorem C3_gradient_is_derivative_outside_clamps:
  "(V_regular v x \<and> i < length x \<and> i < length out \<longrightarrow>
      ((\<lambda>t. V_evaluate v (x[i := t])) has_real_derivative V_gradient v x out ! i) (at (x ! i)))
   \<and> (radial_regular p r \<longrightarrow>
        (radial_evaluate p has_real_derivative radial_gradient p r) (at r))
   \<and> (vector_regular q z \<and> j < length z \<and> j < length out' \<longrightarrow>
        ((\<lambda>t. vector_evaluate q (z[j := t])) has_real_derivative vector_gradient q z out' ! j)
          (at (z ! j)))"
  using V_deriv [of v x i out] radial_deriv [of p r] vector_deriv [of q z j out']
  by blast

text \<open>
  The amended statement at the Model A confinement, the default Lennard-Jones potential
  and the Model E interaction.
\<close>

theorem C3_gradient_is_derivative_outside_clamps_witness:
  "V_regular (QuadraticConfinement (- 1) 2) [1, 0]
   \<and> radial_regular (LennardJonesPotential_new 0.5 0.5 2.5 0.7) 1
   \<and> vector_regular (AnisotropicGaussianInteraction_new 2 [0.5, 1.5]) [1, 1]
   \<and> ((\<lambda>t. V_evaluate (QuadraticConfinement (- 1) 2) ([1, 0][0 := t]))
         has_real_derivative V_gradient (QuadraticConfinement (- 1) 2) [1, 0] [0, 0] ! 0)
        (at ([1, 0] ! 0))
   \<and> (radial_evaluate (LennardJonesPotential_new 0.5 0.5 2.5 0.7)
         has_real_derivative radial_gradient (LennardJonesPotential_new 0.5 0.5 2.5 0.7) 1) (at 1)
   \<and> ((\<lambda>t. vector_evaluate (AnisotropicGaussianInteraction_new 2 [0.5, 1.5]) ([1, 1][0 := t]))
         has_real_derivative
           vector_gradient (AnisotropicGaussianInteraction_new 2 [0.5, 1.5]) [1, 1] [0, 0] ! 0)
        (at ([1, 1] ! 0))"
proof -
  have h1: "V_regular (QuadraticConfinement (- 1) 2) [1, 0]"
    by (simp add: sum_sq_def)
  have h2: "radial_regular (LennardJonesPotential_new 0.5 0.5 2.5 0.7) 1"
    by (simp add: LennardJonesPotential_new_def)
  have h3: "vector_regular (AnisotropicGaussianInteraction_new 2 [0.5, 1.5]) [1, 1]"
    by (simp add: AnisotropicGaussianInteraction_new_def)
  have l: "(0::nat) < length [1, 0 :: real]" "(0::nat) < length [0, 0 :: real]"
    "(0::nat) < length [1, 1 :: real]"
    by simp_all
  show ?thesis
    using h1 h2 h3 l
      C3_gradient_is_derivative_outside_clamps
        [of "QuadraticConfinement (- 1) 2" "[1, 0]" 0 "[0, 0]"
            "LennardJonesPotential_new 0.5 0.5 2.5 0.7" 1
            "AnisotropicGaussianInteraction_new 2 [0.5, 1.5]" "[1, 1]" 0 "[0, 0]"]
    by blast
qed

text \<open>
  The default Lennard-Jones potential (\<open>rCut = 5/2\<close>, \<open>rSafe = 7/20\<close>) at \<open>r = 3\<close>,
  at \<open>r = 2\<close> and at its cutoff.
\<close>

theorem C6_lennard_jones_cutoff_witness:
  "(5/2 :: real) \<le> 3 \<and> (7/10) * (1/2) \<le> (2::real) \<and> (2::real) < 5/2
   \<and> (7/10) * (1/2) < (5/2 :: real) \<and> (5/2 :: real) \<noteq> 0
   \<and> radial_evaluate (LennardJonesPotential_new (1/2) (1/2) (5/2) (7/10)) 3 = 0
   \<and> radial_gradient (LennardJonesPotential_new (1/2) (1/2) (5/2) (7/10)) 3 = 0
   \<and> radial_evaluate (LennardJonesPotential_new (1/2) (1/2) (5/2) (7/10)) 2
       = lj_shifted (1/2) (1/2) (5/2) 2
   \<and> (lj_shifted (1/2) (1/2) (5/2) \<longlongrightarrow> 0) (at_left (5/2))
   \<and> isCont (radial_evaluate (LennardJonesPotential_new (1/2) (1/2) (5/2) (7/10))) (5/2)"
proof -
  have h: "(5/2 :: real) \<le> 3" "(7/10) * (1/2) \<le> (2::real)" "(2::real) < 5/2"
    "(7/10) * (1/2) < (5/2 :: real)" "(5/2 :: real) \<noteq> 0"
    by simp_all
  show ?thesis
    using h C6_lennard_jones_cutoff [of "5/2" 3 "1/2" "1/2" "7/10"]
      C6_lennard_jones_cutoff [of "5/2" 2 "1/2" "1/2" "7/10"]
    by blast
qed

section \<open>The integrator at sample configurations\<close>

lemma replicate_2: "replicate 2 x = [x, x]"
  by (simp add: numeral_2_eq_2)

lemma upt_2: "[0..<2] = [0, 1]"
  by (simp add: upt_rec)

lemma sqrt_9_4: "sqrt (9 / 4) = 3 / 2"
  by (rule real_sqrt_unique) (simp_all add: power2_eq_square)

lemma two_particle_new:
  "ParticleSystem_new 4294967295 (HarmonicPotential 1) (Radial (InverseInteraction 4)) 0 1 2 1 42
     = Inr two_particle_system"
  by (simp add: ParticleSystem_new_eq two_particle_system_def replicate_2)

lemma single_particle_new:
  "ParticleSystem_new 4294967295 DoubleWellPotential (Radial (InverseInteraction 0.5)) 0.15 0.02 1 2 42
     = Inr single_particle_system"
  by (simp add: ParticleSystem_new_eq single_particle_system_def replicate_2)

lemma two_particle_step:
  "positions (snd (step two_particle_system two_particle_state)) = [- 1 / 2, 8 / 25]"
  by (simp add: step_def two_particle_system_def two_particle_state_def Let_def split_beta
      step_particle_def upt_2 radial_pair_def getParticle_def diff_rSq_loop_def
      write_loop_def sqrt_9_4 PRNG_randnArray_def)

lemma two_particle_snapshot:
  "positions (snd (step_particle 1 1 (two_particle_system, two_particle_state))) = [0, 1 / 2]"
  by (simp add: two_particle_system_def two_particle_state_def Let_def split_beta
      step_particle_def upt_2 radial_pair_def getParticle_def diff_rSq_loop_def
      write_loop_def)

text \<open>
  C1 requires every interaction term of one step to be computed from the pre-step
  positions.  The code updates \<open>positions\<close> in place, particle by particle.  For two
  particles at 0 and 1 on a line (harmonic well, inverse-distance interaction, no noise,
  \<open>dt = 1\<close>), \<open>step\<close> moves particle 0 to \<open>-1/2\<close> and then particle 1 to \<open>8/25\<close>:
  the displacement it used for particle 1 is \<open>1 - (-1/2)\<close>.  The same particle update
  applied to the pre-step positions moves particle 1 to \<open>1/2\<close>.
\<close>

theorem C1_later_particle_reads_updated_position:
  "ParticleSystem_new 4294967295 (HarmonicPotential 1) (Radial (InverseInteraction 4)) 0 1 2 1 42
     = Inr two_particle_system
   \<and> positions two_particle_state = [0, 1]
   \<and> positions (snd (step two_particle_system two_particle_state)) = [- 1 / 2, 8 / 25]
   \<and> positions (snd (step_particle (sqrt 1) 1 (two_particle_system, two_particle_state)))
       = [0, 1 / 2]"
  using two_particle_new two_particle_step two_particle_snapshot
  by (simp add: two_particle_state_def)

text \<open>
  C2.  Two integrators constructed from the same potentials, \<open>sigma\<close>, \<open>dt\<close>, \<open>N\<close>,
  \<open>d\<close> and seed start from the generator state that the seed alone determines, and
  yield the same position buffers after every call of any sequence of \<open>initialize\<close> and
  \<open>step\<close> calls; \<open>simulate\<close> returns the same trajectory for both.
\<close>

theorem C2_two_runs_agree:
  "ParticleSystem_new limit V' Phi' sigma' dt' N' d' seed = Inr sysA
   \<and> ParticleSystem_new limit V' Phi' sigma' dt' N' d' seed = Inr sysB
   \<longrightarrow> prng sysA = PRNG_new seed
       \<and> run_calls limit calls sysA None = run_calls limit calls sysB None
       \<and> simulate limit sysA n std = simulate limit sysB n std"
  by (auto simp: ParticleSystem_new_eq split: if_splits)

text \<open>
  The two-run statement at the two-particle configuration.
\<close>

theorem C2_two_runs_agree_witness:
  "ParticleSystem_new 4294967295 (HarmonicPotential 1) (Radial (InverseInteraction 4)) 0 1 2 1 42
     = Inr two_particle_system
   \<and> prng two_particle_system = PRNG_new 42
   \<and> run_calls 4294967295 [Initialize 1, Step, Step] two_particle_system None
       = run_calls 4294967295 [Initialize 1, Step, Step] two_particle_system None
   \<and> simulate 4294967295 two_particle_system 3 1 = simulate 4294967295 two_particle_system 3 1"
proof -
  have h: "ParticleSystem_new 4294967295 (HarmonicPotential 1) (Radial (InverseInteraction 4)) 0 1 2 1 42
             = Inr two_particle_system
           \<and> ParticleSystem_new 4294967295 (HarmonicPotential 1) (Radial (InverseInteraction 4)) 0 1 2 1 42
             = Inr two_particle_system"
    by (simp add: two_particle_new)
  have "prng two_particle_system = PRNG_new 42
        \<and> run_calls 4294967295 [Initialize 1, Step, Step] two_particle_system None
            = run_calls 4294967295 [Initialize 1, Step, Step] two_particle_system None
        \<and> simulate 4294967295 two_particle_system 3 1 = simulate 4294967295 two_particle_system 3 1"
    by (rule C2_two_runs_agree [THEN mp, OF h])
  with two_particle_new show ?thesis
    by simp
qed

text \<open>
  C4, as stated, fails: with \<open>N = 0\<close> and \<open>dt = 0\<close> the constructor raises nothing and
  returns an integrator.
\<close>

theorem C4_invalid_parameters_accepted_counterexample:
  "ParticleSystem_new 4294967295 DoubleWellPotential (Radial (InverseInteraction 0.5)) 0.15 0 0 2 42
     = Inr \<lparr>V = DoubleWellPotential, Phi = Radial (InverseInteraction 0.5), sigma = 0.15,
            dt = 0, N = 0, d = 2, gradV = [0, 0], gradPhi = [0, 0], diff = [0, 0],
            noise = [], gradOut = [0, 0], prng = PRNG_new 42\<rparr>"
  by (simp add: ParticleSystem_new_eq replicate_2)

text \<open>
  C4, amended.  The constructor validates no parameter; its only failure is a failing
  buffer allocation.  When the allocation of \<open>d\<close> slots or of \<open>N * d\<close> slots throws, the
  constructor throws that \<open>RangeError\<close>.  When both succeed, whatever \<open>sigma\<close>, \<open>dt\<close>
  and \<open>N\<close> are, it returns an integrator that holds the parameters unchanged, the
  allocated buffers and the seeded generator.
\<close>

theorem C4_construction_fails_only_in_allocation:
  "(Float64Array_new limit d' = Inl RangeError
      \<or> Float64Array_new limit (N' * d') = Inl RangeError \<longrightarrow>
      ParticleSystem_new limit V' Phi' sigma' dt' N' d' seed = Inl RangeError)
   \<and> (Float64Array_new limit d' = Inr buf \<and> Float64Array_new limit (N' * d') = Inr nbuf \<longrightarrow>
        ParticleSystem_new limit V' Phi' sigma' dt' N' d' seed
          = Inr \<lparr>V = V', Phi = Phi', sigma = sigma', dt = dt', N = N', d = d',
                 gradV = buf, gradPhi = buf, diff = buf, noise = nbuf, gradOut = buf,
                 prng = PRNG_new seed\<rparr>)"
  by (auto simp: ParticleSystem_new_def Let_def error_eq split: sum.splits)

text \<open>
  Both cases of the amended statement: a negative \<open>d\<close> is refused by the allocation, and
  \<open>N = 0\<close> with \<open>dt = 0\<close> is accepted.
\<close>

theorem C4_construction_fails_only_in_allocation_witness:
  "Float64Array_new 4294967295 (- 1) = Inl RangeError
   \<and> ParticleSystem_new 4294967295 DoubleWellPotential (Radial (InverseInteraction 0.5))
         0.15 0.02 3 (- 1) 42
       = Inl RangeError
   \<and> Float64Array_new 4294967295 2 = Inr [0, 0]
   \<and> Float64Array_new 4294967295 (0 * 2) = Inr []
   \<and> ParticleSystem_new 4294967295 DoubleWellPotential (Radial (InverseInteraction 0.5))
         0.15 0 0 2 42
       = Inr \<lparr>V = DoubleWellPotential, Phi = Radial (InverseInteraction 0.5), sigma = 0.15,
              dt = 0, N = 0, d = 2, gradV = [0, 0], gradPhi = [0, 0], diff = [0, 0],
              noise = [], gradOut = [0, 0], prng = PRNG_new 42\<rparr>"
proof -
  have h1: "Float64Array_new 4294967295 (- 1) = Inl RangeError
              \<or> Float64Array_new 4294967295 (3 * (- 1)) = Inl RangeError"
    by (simp add: Float64Array_new_def)
  have h2: "Float64Array_new 4294967295 2 = Inr [0, 0]
              \<and> Float64Array_new 4294967295 (0 * 2) = Inr []"
    by (simp add: Float64Array_new_def replicate_2)
  have r1: "ParticleSystem_new 4294967295 DoubleWellPotential (Radial (InverseInteraction 0.5))
              0.15 0.02 3 (- 1) 42 = Inl RangeError"
    by (rule C4_construction_fails_only_in_allocation [THEN conjunct1, THEN mp, OF h1])
  have r2: "ParticleSystem_new 4294967295 DoubleWellPotential (Radial (InverseInteraction 0.5))
              0.15 0 0 2 42
       = Inr \<lparr>V = DoubleWellPotential, Phi = Radial (InverseInteraction 0.5), sigma = 0.15,
              dt = 0, N = 0, d = 2, gradV = [0, 0], gradPhi = [0, 0], diff = [0, 0],
              noise = [], gradOut = [0, 0], prng = PRNG_new 42\<rparr>"
    by (rule C4_construction_fails_only_in_allocation [THEN conjunct2, THEN mp, OF h2])
  from h2 r1 r2 show ?thesis
    by (simp add: Float64Array_new_def)
qed

text \<open>
  The draws of one step of the two-particle configuration: two normal draws, four
  uniform draws.
\<close>

theorem C5_step_draws_witness:
  "ParticleSystem_new 4294967295 (HarmonicPotential 1) (Radial (InverseInteraction 4)) 0 1 2 1 42
     = Inr two_particle_system
   \<and> noise_allocated two_particle_system
   \<and> step two_particle_system two_particle_state
       = fold (step_particle (sqrt 1)) [0..<nat 2]
           (two_particle_system
              \<lparr>noise := fst (randn_fill (nat (2 * 1)) (PRNG_new 42)),
               prng := (PRNG_next_state ^^ (2 * nat (2 * 1))) (PRNG_new 42)\<rparr>,
            two_particle_state)
   \<and> noise (fst (step two_particle_system two_particle_state))
       = fst (randn_fill (nat (2 * 1)) (PRNG_new 42))
   \<and> prng (fst (step two_particle_system two_particle_state))
       = (PRNG_next_state ^^ (2 * nat (2 * 1))) (PRNG_new 42)"
proof -
  have h: "noise_allocated two_particle_system"
    by (simp add: noise_allocated_def two_particle_system_def)
  have p: "ParticleSystem.N two_particle_system = 2" "ParticleSystem.d two_particle_system = 1"
    "prng two_particle_system = PRNG_new 42" "dt two_particle_system = 1"
    by (simp_all add: two_particle_system_def)
  note inst =
    C5_step_draws [where sysC = two_particle_system and sys = two_particle_system
      and state = two_particle_state and limit = 4294967295
      and V' = "HarmonicPotential 1" and Phi' = "Radial (InverseInteraction 4)"
      and sigma' = 0 and dt' = 1 and N' = 2 and d' = 1 and seed = 42]
  show ?thesis
    using h two_particle_new inst [unfolded p]
    by blast
qed

text \<open>
  The two pair contributions of the two-particle configuration.
\<close>

theorem C7_pair_force_antisymmetric_witness:
  "scratch_allocated two_particle_system \<and> state_fits two_particle_system two_particle_state
   \<and> (0::nat) < nat (ParticleSystem.N two_particle_system)
   \<and> (1::nat) < nat (ParticleSystem.N two_particle_system)
   \<and> (0::nat) < nat (ParticleSystem.d two_particle_system)
   \<and> gradPhi (radial_pair (InverseInteraction 4) two_particle_state 0 1 two_particle_system) ! 0
         - gradPhi two_particle_system ! 0
       = - (gradPhi (radial_pair (InverseInteraction 4) two_particle_state 1 0 two_particle_system) ! 0
            - gradPhi two_particle_system ! 0)"
proof -
  have h: "scratch_allocated two_particle_system"
    "state_fits two_particle_system two_particle_state"
    "(0::nat) < nat (ParticleSystem.N two_particle_system)"
    "(1::nat) < nat (ParticleSystem.N two_particle_system)"
    "(0::nat) < nat (ParticleSystem.d two_particle_system)"
    by (simp_all add: scratch_allocated_def state_fits_def two_particle_system_def
        two_particle_state_def)
  show ?thesis
    using h C7_pair_force_antisymmetric [OF h, of "InverseInteraction 4"]
    by blast
qed

text \<open>
  One step of a single particle at \<open>(1, 2)\<close> in the double well.
\<close>

theorem C10_single_particle_step_witness:
  "ParticleSystem_new 4294967295 DoubleWellPotential (Radial (InverseInteraction 0.5)) 0.15 0.02 1 2 42
     = Inr single_particle_system
   \<and> scratch_allocated single_particle_system \<and> noise_allocated single_particle_system
   \<and> ParticleSystem.N single_particle_system = 1
   \<and> state_fits single_particle_system single_particle_state
   \<and> 0 \<le> dt single_particle_system
   \<and> gradPhi (fst (step single_particle_system single_particle_state)) = [0, 0]
   \<and> positions (snd (step single_particle_system single_particle_state))
       = map (\<lambda>k. [1, 2] ! k
                 + (- V_gradient DoubleWellPotential [1, 2] [0, 0] ! k * 0.02
                    + 0.15 * sqrt 0.02 * fst (randn_fill 2 (PRNG_new 42)) ! k))
           [0..<2]"
proof -
  have h: "scratch_allocated single_particle_system" "noise_allocated single_particle_system"
    "ParticleSystem.N single_particle_system = 1"
    "state_fits single_particle_system single_particle_state"
    "0 \<le> dt single_particle_system"
    by (simp_all add: scratch_allocated_def noise_allocated_def state_fits_def
        single_particle_system_def single_particle_state_def)
  have p: "ParticleSystem.d single_particle_system = 2" "V single_particle_system = DoubleWellPotential"
    "gradV single_particle_system = [0, 0]" "dt single_particle_system = 0.02"
    "sigma single_particle_system = 0.15" "prng single_particle_system = PRNG_new 42"
    "positions single_particle_state = [1, 2]"
    by (simp_all add: single_particle_system_def single_particle_state_def)
  show ?thesis
    using single_particle_new h C10_single_particle_step [OF h]
    by (simp only: p replicate_2 nat_numeral)
qed

end
